theory Spec2Isabelle
  imports Main
begin

section \<open>Plan capabilities (lib/plan-capabilities.ts)\<close>

text \<open>
  JavaScript strings are modelled as \<^typ>\<open>string\<close>; a value of type
  \<open>string | null | undefined\<close> is a \<^typ>\<open>string option\<close>, with \<open>None\<close> for both
  \<open>null\<close> and \<open>undefined\<close>. An \<open>ExportFormat\<close> is one of the three string literals.
\<close>

type_synonym ExportFormat = string

record PlanCapabilities =
  allowedExportFormats :: "ExportFormat list"
  canUseBranding :: bool
  showWatermark :: bool
  unlimitedAudits :: bool

definition getPlanCapabilities :: "string option \<Rightarrow> PlanCapabilities" where
  "getPlanCapabilities planId =
     (let isAgency = (planId = Some ''agency'');
          isFree = (planId = Some ''free'')
      in \<lparr> allowedExportFormats = (if isAgency then [''pdf'', ''html'', ''docx''] else [''pdf'']),
           canUseBranding = isAgency,
           showWatermark = isFree,
           unlimitedAudits = isAgency \<rparr>)"


section \<open>Characters and strings of the platform\<close>

text \<open>
  A \<^typ>\<open>char\<close> stands for the code point of the same number (U+0000 to U+00FF), so
  the model covers the strings whose code units are below 256.
\<close>

definition charCode :: "char \<Rightarrow> nat" where
  "charCode c = of_char c"

definition isAsciiUpper :: "char \<Rightarrow> bool" where
  "isAsciiUpper c = (65 \<le> charCode c \<and> charCode c \<le> 90)"

definition isAsciiLowerAlpha :: "char \<Rightarrow> bool" where
  "isAsciiLowerAlpha c = (97 \<le> charCode c \<and> charCode c \<le> 122)"

definition isAsciiAlpha :: "char \<Rightarrow> bool" where
  "isAsciiAlpha c = (isAsciiUpper c \<or> isAsciiLowerAlpha c)"

definition isAsciiDigit :: "char \<Rightarrow> bool" where
  "isAsciiDigit c = (48 \<le> charCode c \<and> charCode c \<le> 57)"

definition isAsciiAlphanumeric :: "char \<Rightarrow> bool" where
  "isAsciiAlphanumeric c = (isAsciiAlpha c \<or> isAsciiDigit c)"

definition asciiLowercase :: "char \<Rightarrow> char" where
  "asciiLowercase c = (if isAsciiUpper c then char_of (charCode c + 32) else c)"

definition startsWith :: "string \<Rightarrow> string \<Rightarrow> bool" where
  "startsWith s p = (take (length p) s = p)"

definition slice :: "string \<Rightarrow> nat \<Rightarrow> string" where
  "slice s n = drop n s"

section \<open>The pathname of a URL resolved against https://placeholder.local\<close>

text \<open>
  \<open>new URL(input, "https://placeholder.local").pathname\<close> is the platform's URL parser
  (the basic URL parser of the WHATWG URL Standard, run without a state override and
  with the base URL \<open>https://placeholder.local\<close>, whose path is the single empty
  segment). The model follows the parser's states and keeps what the pathname needs:
  the scheme's kind, whether parsing fails, and the path. Credentials, port value,
  query and fragment are dropped. The host parser (IDNA, IPv4 and IPv6 literals) is not
  modelled: its verdict is the parameter \<open>hostParser isOpaque host\<close>, \<open>True\<close> when the
  host parses.
\<close>

datatype urlPath = OpaquePath string | ListPath "string list"

definition isC0ControlOrSpace :: "char \<Rightarrow> bool" where
  "isC0ControlOrSpace c = (charCode c \<le> 32)"

definition isAsciiTabOrNewline :: "char \<Rightarrow> bool" where
  "isAsciiTabOrNewline c = (c = CHR 0x09 \<or> c = CHR 0x0A \<or> c = CHR 0x0D)"

definition prepareInput :: "string \<Rightarrow> string" where
  "prepareInput input =
     filter (\<lambda>c. \<not> isAsciiTabOrNewline c)
       (rev (dropWhile isC0ControlOrSpace (rev (dropWhile isC0ControlOrSpace input))))"

definition hexDigit :: "nat \<Rightarrow> char" where
  "hexDigit n = ''0123456789ABCDEF'' ! n"

definition percentEncodeByte :: "nat \<Rightarrow> string" where
  "percentEncodeByte b = [CHR ''%'', hexDigit (b div 16), hexDigit (b mod 16)]"

definition utf8PercentEncode :: "char \<Rightarrow> string" where
  "utf8PercentEncode c =
     (if charCode c < 128 then percentEncodeByte (charCode c)
      else percentEncodeByte (192 + charCode c div 64) @ percentEncodeByte (128 + charCode c mod 64))"

definition inC0ControlPercentEncodeSet :: "char \<Rightarrow> bool" where
  "inC0ControlPercentEncodeSet c = (charCode c \<le> 31 \<or> charCode c > 126)"

definition inQueryPercentEncodeSet :: "char \<Rightarrow> bool" where
  "inQueryPercentEncodeSet c =
     (inC0ControlPercentEncodeSet c \<or> c = CHR '' '' \<or> c = CHR 0x22 \<or> c = CHR ''#''
      \<or> c = CHR ''<'' \<or> c = CHR ''>'')"

definition inPathPercentEncodeSet :: "char \<Rightarrow> bool" where
  "inPathPercentEncodeSet c =
     (inQueryPercentEncodeSet c \<or> c = CHR ''?'' \<or> c = CHR ''^'' \<or> c = CHR 0x60
      \<or> c = CHR ''{'' \<or> c = CHR ''}'')"

definition pathEncode :: "char \<Rightarrow> string" where
  "pathEncode c = (if inPathPercentEncodeSet c then utf8PercentEncode c else [c])"

definition isSingleDotSegment :: "string \<Rightarrow> bool" where
  "isSingleDotSegment b = (b = ''.'' \<or> map asciiLowercase b = ''%2e'')"

definition isDoubleDotSegment :: "string \<Rightarrow> bool" where
  "isDoubleDotSegment b =
     (b = ''..'' \<or> map asciiLowercase b = ''.%2e'' \<or> map asciiLowercase b = ''%2e.''
      \<or> map asciiLowercase b = ''%2e%2e'')"

definition isWindowsDriveLetter :: "string \<Rightarrow> bool" where
  "isWindowsDriveLetter b =
     (case b of [x, y] \<Rightarrow> isAsciiAlpha x \<and> (y = CHR '':'' \<or> y = CHR ''|'') | _ \<Rightarrow> False)"

definition isNormalizedWindowsDriveLetter :: "string \<Rightarrow> bool" where
  "isNormalizedWindowsDriveLetter b =
     (case b of [x, y] \<Rightarrow> isAsciiAlpha x \<and> y = CHR '':'' | _ \<Rightarrow> False)"

definition shortenPath :: "bool \<Rightarrow> string list \<Rightarrow> string list" where
  "shortenPath isFile path =
     (if isFile \<and> length path = 1 \<and> isNormalizedWindowsDriveLetter (hd path) then path
      else butlast path)"

text \<open>
  The path state at the end of a segment: \<open>slash\<close> tells whether the segment ended at a
  slash (a backslash too in a special URL) rather than at \<open>?\<close>, \<open>#\<close> or the end of input.
\<close>

definition endSegment :: "bool \<Rightarrow> string list \<Rightarrow> string \<Rightarrow> bool \<Rightarrow> string list" where
  "endSegment isFile path buffer slash =
     (if isDoubleDotSegment buffer
      then (if slash then shortenPath isFile path else shortenPath isFile path @ [''''])
      else if isSingleDotSegment buffer
      then (if slash then path else path @ [''''])
      else if isFile \<and> path = [] \<and> isWindowsDriveLetter buffer
      then path @ [[hd buffer, CHR '':'']]
      else path @ [buffer])"

fun pathState :: "bool \<Rightarrow> bool \<Rightarrow> string list \<Rightarrow> string \<Rightarrow> string \<Rightarrow> string list" where
  "pathState special isFile path buffer [] = endSegment isFile path buffer False"
| "pathState special isFile path buffer (c # cs) =
     (if c = CHR ''/'' \<or> (special \<and> c = CHR 0x5C)
      then pathState special isFile (endSegment isFile path buffer True) [] cs
      else if c = CHR ''?'' \<or> c = CHR ''#''
      then endSegment isFile path buffer False
      else pathState special isFile path (buffer @ pathEncode c) cs)"

definition pathStartState :: "bool \<Rightarrow> bool \<Rightarrow> string \<Rightarrow> string list" where
  "pathStartState special isFile s =
     (if special
      then (case s of
              [] \<Rightarrow> pathState special isFile [] [] []
            | c # cs \<Rightarrow> if c = CHR ''/'' \<or> c = CHR 0x5C
                         then pathState special isFile [] [] cs
                         else pathState special isFile [] [] s)
      else (case s of
              [] \<Rightarrow> []
            | c # cs \<Rightarrow> if c = CHR ''?'' \<or> c = CHR ''#'' then []
                         else if c = CHR ''/'' then pathState special isFile [] [] cs
                         else pathState special isFile [] [] s))"

fun opaquePathState :: "string \<Rightarrow> string" where
  "opaquePathState [] = []"
| "opaquePathState (c # cs) =
     (if c = CHR ''?'' \<or> c = CHR ''#'' then []
      else if c = CHR '' ''
      then (case cs of
              [] \<Rightarrow> '' ''
            | d # ds \<Rightarrow> if d = CHR ''?'' \<or> d = CHR ''#'' then ''%20'' else '' '')
           @ opaquePathState cs
      else (if inC0ControlPercentEncodeSet c then utf8PercentEncode c else [c])
           @ opaquePathState cs)"

definition decimalValue :: "string \<Rightarrow> nat" where
  "decimalValue ds = foldl (\<lambda>a c. 10 * a + (charCode c - 48)) 0 ds"

definition portState :: "bool \<Rightarrow> string \<Rightarrow> string \<Rightarrow> urlPath option" where
  "portState special port rest =
     (if \<not> list_all isAsciiDigit port then None
      else if port \<noteq> [] \<and> decimalValue port > 65535 then None
      else Some (ListPath (pathStartState special False rest)))"

text \<open>
  The host state reads the host up to the first colon outside square brackets; what
  follows the colon is the port.
\<close>

fun splitHostPort :: "bool \<Rightarrow> string \<Rightarrow> string \<Rightarrow> string \<times> string option" where
  "splitHostPort insideBrackets buffer [] = (buffer, None)"
| "splitHostPort insideBrackets buffer (c # cs) =
     (if c = CHR '':'' \<and> \<not> insideBrackets then (buffer, Some cs)
      else splitHostPort (if c = CHR ''['' then True else if c = CHR '']'' then False
                          else insideBrackets)
             (buffer @ [c]) cs)"

definition hostState ::
  "(bool \<Rightarrow> string \<Rightarrow> bool) \<Rightarrow> bool \<Rightarrow> string \<Rightarrow> string \<Rightarrow> urlPath option" where
  "hostState hostParser special hostPort rest =
     (case splitHostPort False [] hostPort of
        (buffer, Some port) \<Rightarrow>
          if buffer = [] then None
          else if \<not> hostParser (\<not> special) buffer then None
          else portState special port rest
      | (buffer, None) \<Rightarrow>
          if special \<and> buffer = [] then None
          else if \<not> hostParser (\<not> special) buffer then None
          else Some (ListPath (pathStartState special False rest)))"

definition isAuthorityEnd :: "bool \<Rightarrow> char \<Rightarrow> bool" where
  "isAuthorityEnd special c =
     (c = CHR ''/'' \<or> c = CHR ''?'' \<or> c = CHR ''#'' \<or> (special \<and> c = CHR 0x5C))"

text \<open>
  The authority state collects code points up to the first of \<open>/\<close>, \<open>?\<close>, \<open>#\<close> (and
  \<open>\\<close> in a special URL) or the end of input. Each \<open>@\<close> moves what was collected to the
  credentials, so the buffer handed to the host state is what follows the last \<open>@\<close>.
\<close>

definition authorityState ::
  "(bool \<Rightarrow> string \<Rightarrow> bool) \<Rightarrow> bool \<Rightarrow> string \<Rightarrow> urlPath option" where
  "authorityState hostParser special s =
     (let authority = takeWhile (\<lambda>c. \<not> isAuthorityEnd special c) s;
          rest = dropWhile (\<lambda>c. \<not> isAuthorityEnd special c) s;
          buffer = rev (takeWhile (\<lambda>c. c \<noteq> CHR ''@'') (rev authority))
      in if CHR ''@'' \<in> set authority \<and> buffer = [] then None
         else hostState hostParser special buffer rest)"

definition isSlash :: "char \<Rightarrow> bool" where
  "isSlash c = (c = CHR ''/'' \<or> c = CHR 0x5C)"

definition specialAuthorityIgnoreSlashesState ::
  "(bool \<Rightarrow> string \<Rightarrow> bool) \<Rightarrow> string \<Rightarrow> urlPath option" where
  "specialAuthorityIgnoreSlashesState hostParser s =
     authorityState hostParser True (dropWhile isSlash s)"

definition specialAuthoritySlashesState ::
  "(bool \<Rightarrow> string \<Rightarrow> bool) \<Rightarrow> string \<Rightarrow> urlPath option" where
  "specialAuthoritySlashesState hostParser s =
     (if startsWith s ''//'' then specialAuthorityIgnoreSlashesState hostParser (drop 2 s)
      else specialAuthorityIgnoreSlashesState hostParser s)"

definition basePath :: "string list" where
  "basePath = ['''']"

definition relativeSlashState ::
  "(bool \<Rightarrow> string \<Rightarrow> bool) \<Rightarrow> string \<Rightarrow> urlPath option" where
  "relativeSlashState hostParser s =
     (case s of
        [] \<Rightarrow> Some (ListPath (pathState True False [] [] s))
      | c # cs \<Rightarrow>
          if isSlash c then specialAuthorityIgnoreSlashesState hostParser cs
          else Some (ListPath (pathState True False [] [] s)))"

definition relativeState ::
  "(bool \<Rightarrow> string \<Rightarrow> bool) \<Rightarrow> string \<Rightarrow> urlPath option" where
  "relativeState hostParser s =
     (case s of
        [] \<Rightarrow> Some (ListPath basePath)
      | c # cs \<Rightarrow>
          if isSlash c then relativeSlashState hostParser cs
          else if c = CHR ''?'' \<or> c = CHR ''#'' then Some (ListPath basePath)
          else Some (ListPath (pathState True False (shortenPath False basePath) [] s)))"

definition specialRelativeOrAuthorityState ::
  "(bool \<Rightarrow> string \<Rightarrow> bool) \<Rightarrow> string \<Rightarrow> urlPath option" where
  "specialRelativeOrAuthorityState hostParser s =
     (if startsWith s ''//'' then specialAuthorityIgnoreSlashesState hostParser (drop 2 s)
      else relativeState hostParser s)"

definition pathOrAuthorityState ::
  "(bool \<Rightarrow> string \<Rightarrow> bool) \<Rightarrow> string \<Rightarrow> urlPath option" where
  "pathOrAuthorityState hostParser s =
     (case s of
        [] \<Rightarrow> Some (ListPath (pathState False False [] [] s))
      | c # cs \<Rightarrow>
          if c = CHR ''/'' then authorityState hostParser False cs
          else Some (ListPath (pathState False False [] [] s)))"

definition isFileHostEnd :: "char \<Rightarrow> bool" where
  "isFileHostEnd c = (c = CHR ''/'' \<or> c = CHR 0x5C \<or> c = CHR ''?'' \<or> c = CHR ''#'')"

definition fileHostState ::
  "(bool \<Rightarrow> string \<Rightarrow> bool) \<Rightarrow> string \<Rightarrow> urlPath option" where
  "fileHostState hostParser s =
     (let buffer = takeWhile (\<lambda>c. \<not> isFileHostEnd c) s;
          rest = dropWhile (\<lambda>c. \<not> isFileHostEnd c) s
      in if isWindowsDriveLetter buffer then Some (ListPath (pathState True True [] buffer rest))
         else if buffer = [] then Some (ListPath (pathStartState True True rest))
         else if hostParser False buffer then Some (ListPath (pathStartState True True rest))
         else None)"

definition fileSlashState ::
  "(bool \<Rightarrow> string \<Rightarrow> bool) \<Rightarrow> string \<Rightarrow> urlPath option" where
  "fileSlashState hostParser s =
     (case s of
        [] \<Rightarrow> Some (ListPath (pathState True True [] [] s))
      | c # cs \<Rightarrow>
          if isSlash c then fileHostState hostParser cs
          else Some (ListPath (pathState True True [] [] s)))"

definition fileState ::
  "(bool \<Rightarrow> string \<Rightarrow> bool) \<Rightarrow> string \<Rightarrow> urlPath option" where
  "fileState hostParser s =
     (case s of
        [] \<Rightarrow> Some (ListPath (pathState True True [] [] s))
      | c # cs \<Rightarrow>
          if isSlash c then fileSlashState hostParser cs
          else Some (ListPath (pathState True True [] [] s)))"

definition isSchemeChar :: "char \<Rightarrow> bool" where
  "isSchemeChar c = (isAsciiAlphanumeric c \<or> c = CHR ''+'' \<or> c = CHR ''-'' \<or> c = CHR ''.'')"

text \<open>
  The scheme start state and the scheme state: a scheme is an ASCII letter, then
  letters, digits, \<open>+\<close>, \<open>-\<close> and \<open>.\<close>, up to a colon. Where the colon is missing the
  parser starts over in the no scheme state.
\<close>

definition schemeState :: "string \<Rightarrow> (string \<times> string) option" where
  "schemeState s =
     (case s of
        [] \<Rightarrow> None
      | c # cs \<Rightarrow>
          if isAsciiAlpha c
          then (case dropWhile isSchemeChar s of
                  [] \<Rightarrow> None
                | d # rest \<Rightarrow>
                    if d = CHR '':''
                    then Some (map asciiLowercase (takeWhile isSchemeChar s), rest)
                    else None)
          else None)"

definition isSpecialScheme :: "string \<Rightarrow> bool" where
  "isSpecialScheme scheme =
     (scheme \<in> set [''ftp'', ''file'', ''http'', ''https'', ''ws'', ''wss''])"

definition baseScheme :: string where
  "baseScheme = ''https''"

definition basicUrlParser ::
  "(bool \<Rightarrow> string \<Rightarrow> bool) \<Rightarrow> string \<Rightarrow> urlPath option" where
  "basicUrlParser hostParser input =
     (let s = prepareInput input
      in case schemeState s of
           None \<Rightarrow> relativeState hostParser s
         | Some (scheme, rest) \<Rightarrow>
             if scheme = ''file'' then fileState hostParser rest
             else if isSpecialScheme scheme \<and> scheme = baseScheme
             then specialRelativeOrAuthorityState hostParser rest
             else if isSpecialScheme scheme
             then specialAuthoritySlashesState hostParser rest
             else if startsWith rest ''/'' then pathOrAuthorityState hostParser (drop 1 rest)
             else Some (OpaquePath (opaquePathState rest)))"

definition serializePath :: "urlPath \<Rightarrow> string" where
  "serializePath p =
     (case p of
        OpaquePath s \<Rightarrow> s
      | ListPath segments \<Rightarrow> concat (map (\<lambda>segment. CHR ''/'' # segment) segments))"

definition urlPathname :: "(bool \<Rightarrow> string \<Rightarrow> bool) \<Rightarrow> string \<Rightarrow> string option" where
  "urlPathname hostParser input = map_option serializePath (basicUrlParser hostParser input)"

text \<open>
  A host parser for evaluating the model at concrete URLs: it accepts the non-empty
  hosts made of ASCII letters and dots only, which the standard's host parser accepts
  (they hold no forbidden code point, no Punycode label and no number).
\<close>

definition lettersAndDotsHost :: "bool \<Rightarrow> string \<Rightarrow> bool" where
  "lettersAndDotsHost isOpaque host =
     (host \<noteq> [] \<and> list_all (\<lambda>c. isAsciiAlpha c \<or> c = CHR ''.'') host)"

section \<open>Logo storage (lib/logo-storage.ts)\<close>

text \<open>\<open>FILENAME_RE = /^[a-zA-Z0-9_.-]+$/\<close>, and \<open>String.prototype.includes\<close>.\<close>

definition isFilenameChar :: "char \<Rightarrow> bool" where
  "isFilenameChar c =
     (isAsciiAlphanumeric c \<or> c = CHR ''_'' \<or> c = CHR ''.'' \<or> c = CHR ''-'')"

definition matchesFILENAME_RE :: "string \<Rightarrow> bool" where
  "matchesFILENAME_RE s = (s \<noteq> [] \<and> list_all isFilenameChar s)"

fun stringIncludes :: "string \<Rightarrow> string \<Rightarrow> bool" where
  "stringIncludes [] t = (t = [])"
| "stringIncludes (c # cs) t = (startsWith (c # cs) t \<or> stringIncludes cs t)"

definition extractLogoFilenameFromUrl ::
  "(bool \<Rightarrow> string \<Rightarrow> bool) \<Rightarrow> string option \<Rightarrow> string option" where
  "extractLogoFilenameFromUrl hostParser logoUrl =
     (case logoUrl of
        None \<Rightarrow> None
      | Some u \<Rightarrow>
          if u = [] then None
          else (case urlPathname hostParser u of
                  None \<Rightarrow> None
                | Some pathname \<Rightarrow>
                    if startsWith pathname ''/api/upload/logo/''
                    then (let raw = slice pathname (length ''/api/upload/logo/'')
                          in if matchesFILENAME_RE raw then Some raw else None)
                    else if startsWith pathname ''/uploads/''
                    then (let raw = slice pathname (length ''/uploads/'')
                          in if matchesFILENAME_RE raw then Some raw else None)
                    else None))"

definition toApiLogoPath ::
  "(bool \<Rightarrow> string \<Rightarrow> bool) \<Rightarrow> string option \<Rightarrow> string option" where
  "toApiLogoPath hostParser logoUrl =
     (case extractLogoFilenameFromUrl hostParser logoUrl of
        None \<Rightarrow> None
      | Some filename \<Rightarrow> Some (''/api/upload/logo/'' @ filename))"

section \<open>Route handlers: outcomes and the database\<close>

text \<open>
  A route handler either answers \<open>NextResponse.json({ error }, { status })\<close>, or
  answers with status 200 and a payload, or throws (an exception no \<open>try\<close> of the
  handler catches; the framework then answers 500).
\<close>

datatype 'a outcome = Failed nat string | Succeeded 'a | Threw

definition statusOf :: "'a outcome \<Rightarrow> nat" where
  "statusOf r = (case r of Failed status msg \<Rightarrow> status | Succeeded payload \<Rightarrow> 200 | Threw \<Rightarrow> 500)"

text \<open>
  \<open>NextResponse.json({ error }, { status })\<close> with a status that is not a constant of
  the handler: it is built by \<open>Response.json\<close>, which throws a RangeError for a status
  outside 200 to 599 and a TypeError for a null body status (101, 103, 204, 205, 304),
  since the response has a body.
\<close>

definition nullBodyStatus :: "nat \<Rightarrow> bool" where
  "nullBodyStatus status = (status \<in> set [101, 103, 204, 205, 304])"

definition errorResponse :: "nat \<Rightarrow> string \<Rightarrow> 'a outcome" where
  "errorResponse status msg =
     (if 200 \<le> status \<and> status \<le> 599 \<and> \<not> nullBodyStatus status then Failed status msg
      else Threw)"

text \<open>The operator \<open>||\<close> on a \<open>string | null\<close> operand, and the truthiness it tests.\<close>

definition truthy :: "string option \<Rightarrow> bool" where
  "truthy v = (case v of None \<Rightarrow> False | Some s \<Rightarrow> s \<noteq> [])"

definition orElse :: "string option \<Rightarrow> string \<Rightarrow> string" where
  "orElse v d = (case v of None \<Rightarrow> d | Some s \<Rightarrow> if s = [] then d else s)"

text \<open>
  \<open>String.prototype.toLowerCase\<close> on code units below 256: the ASCII capitals, and the
  Latin-1 capitals U+00C0 to U+00DE except the multiplication sign U+00D7.
\<close>

definition lowerCaseChar :: "char \<Rightarrow> char" where
  "lowerCaseChar c =
     (if isAsciiUpper c \<or> (192 \<le> charCode c \<and> charCode c \<le> 222 \<and> charCode c \<noteq> 215)
      then char_of (charCode c + 32) else c)"

definition toLowerCase :: "string \<Rightarrow> string" where
  "toLowerCase s = map lowerCaseChar s"

text \<open>The tables the handlers read and write, each a map from its key.\<close>

record userRow =
  planId :: "string option"
  gscConnected :: bool
  gscConnectedAt :: "nat option"

record planRow =
  autoIndexing :: bool

record auditRow =
  audit_userId :: string
  fastApiId :: string
  resultJson :: "string option"
  language :: "string option"

record brandRow =
  companyName :: "string option"
  logoUrl :: "string option"
  primaryColor :: "string option"
  accentColor :: "string option"

record siteRow =
  site_userId :: string
  autoIndexGoogle :: bool
  autoIndexBing :: bool

record accountRow =
  access_token :: "string option"
  refresh_token :: "string option"
  expires_at :: "nat option"
  scope :: "string option"

record database =
  users :: "string \<rightharpoonup> userRow"
  plans :: "string \<rightharpoonup> planRow"
  audits :: "string \<rightharpoonup> auditRow"
  brandSettings :: "string \<rightharpoonup> brandRow"
  sites :: "string \<rightharpoonup> siteRow"
  accounts :: "string \<rightharpoonup> accountRow"

section \<open>Export route (app/api/audit/[id]/export/route.ts)\<close>

definition SUPPORTED_FORMATS :: "ExportFormat list" where
  "SUPPORTED_FORMATS = [''pdf'', ''html'', ''docx'']"

text \<open>
  The \<open>brand\<close> object: each key is there only with a non-empty value, and the object
  is \<open>undefined\<close> (\<open>None\<close>) when no key is.
\<close>

record brand =
  company_name :: "string option"
  primary_color :: "string option"
  accent_color :: "string option"
  logo_url :: "string option"

definition keepTruthy :: "string option \<Rightarrow> string option" where
  "keepTruthy v = (if truthy v then v else None)"

definition absoluteLogoUrl :: "string \<Rightarrow> string option \<Rightarrow> string option" where
  "absoluteLogoUrl origin stored =
     (case stored of
        None \<Rightarrow> None
      | Some l \<Rightarrow>
          if l = [] then None
          else if startsWith l ''http://'' \<or> startsWith l ''https://'' then Some l
          else Some (origin @ (if startsWith l ''/'' then l else ''/'' @ l)))"

definition buildBrand :: "string \<Rightarrow> brandRow \<Rightarrow> brand option" where
  "buildBrand origin branding =
     (let b = \<lparr> company_name = keepTruthy (companyName branding),
                primary_color = keepTruthy (primaryColor branding),
                accent_color = keepTruthy (accentColor branding),
                logo_url = keepTruthy (absoluteLogoUrl origin (logoUrl branding)) \<rparr>
      in if company_name b = None \<and> primary_color b = None \<and> accent_color b = None
            \<and> logo_url b = None
         then None else Some b)"

text \<open>
  The calls to the report service. \<open>DownloadGet fastApiId params\<close> is the GET of
  \<open>/api/audit/<fastApiId>/download\<close> with the query parameters in the order they were
  set; \<open>GeneratePost body\<close> is the POST of \<open>/api/report/generate\<close> with the JSON body.
  The deserialized audit payload has the type \<open>'j\<close>.
\<close>

record 'j generateBody =
  gen_format :: ExportFormat
  gen_audit :: 'j
  gen_language :: string
  gen_show_watermark :: bool
  gen_brand :: "brand option"

datatype 'j upstreamRequest =
  DownloadGet string "(string \<times> string) list"
| GeneratePost "'j generateBody"

record upstreamResponse =
  res_status :: nat
  res_contentType :: "string option"
  res_contentDisposition :: "string option"
  res_body :: string

definition ok :: "upstreamResponse \<Rightarrow> bool" where
  "ok res = (200 \<le> res_status res \<and> res_status res \<le> 299)"

record artifact =
  art_body :: string
  art_contentType :: string
  art_contentDisposition :: string

definition artifactOf :: "upstreamResponse \<Rightarrow> artifact" where
  "artifactOf res =
     \<lparr> art_body = res_body res,
       art_contentType = orElse (res_contentType res) ''application/octet-stream'',
       art_contentDisposition = orElse (res_contentDisposition res) [] \<rparr>"

definition boolString :: "bool \<Rightarrow> string" where
  "boolString b = (if b then ''true'' else ''false'')"

definition brandParams :: "brand option \<Rightarrow> (string \<times> string) list" where
  "brandParams b =
     (case b of
        None \<Rightarrow> []
      | Some br \<Rightarrow>
          (if truthy (company_name br) then [(''company_name'', the (company_name br))] else [])
          @ (if truthy (primary_color br) then [(''primary_color'', the (primary_color br))] else [])
          @ (if truthy (accent_color br) then [(''accent_color'', the (accent_color br))] else [])
          @ (if truthy (logo_url br) then [(''logo_url'', the (logo_url br))] else []))"

definition downloadParams ::
  "ExportFormat \<Rightarrow> string option \<Rightarrow> PlanCapabilities \<Rightarrow> brand option \<Rightarrow> (string \<times> string) list" where
  "downloadParams format lang capabilities b =
     [(''format'', format)]
     @ (if truthy lang then [(''lang'', the lang)] else [])
     @ [(''show_watermark'', boolString (showWatermark capabilities))]
     @ brandParams b"

text \<open>
  The \<open>brand\<close> of a request: the stored branding of the caller when the plan may use
  branding, \<open>undefined\<close> otherwise.
\<close>

definition exportBrand :: "database \<Rightarrow> string \<Rightarrow> PlanCapabilities \<Rightarrow> string \<Rightarrow> brand option" where
  "exportBrand db sessionUserId capabilities origin =
     (if canUseBranding capabilities
      then (case brandSettings db sessionUserId of
              None \<Rightarrow> None
            | Some branding \<Rightarrow> buildBrand origin branding)
      else None)"

text \<open>
  The handler. \<open>jsonParse\<close> is the platform's \<open>JSON.parse\<close> (\<open>None\<close> when it throws) and
  \<open>upstream\<close> is what \<open>fastapiFetch\<close> resolves to for a request (\<open>None\<close> when it
  rejects). The request is the session's user id (\<open>None\<close> without a session), the
  audit id of the route, the \<open>format\<close> and \<open>lang\<close> query parameters and the origin of
  the request's URL. The result is the outcome and the calls made to the report
  service, in order.
\<close>

definition GET_export ::
  "(string \<Rightarrow> 'j option) \<Rightarrow> ('j upstreamRequest \<Rightarrow> upstreamResponse option) \<Rightarrow> database
   \<Rightarrow> string option \<Rightarrow> string \<Rightarrow> string option \<Rightarrow> string option \<Rightarrow> string
   \<Rightarrow> artifact outcome \<times> 'j upstreamRequest list" where
  "GET_export jsonParse upstream db session auditId formatParam lang origin =
     (case session of
        None \<Rightarrow> (Failed 401 ''Unauthorized'', [])
      | Some sessionUserId \<Rightarrow>
          let requestedFormat = toLowerCase (orElse formatParam ''pdf'')
          in if requestedFormat \<notin> set SUPPORTED_FORMATS
             then (Failed 400 ''Unsupported export format'', [])
             else
               (case users db sessionUserId of
                  None \<Rightarrow> (Failed 404 ''User not found'', [])
                | Some user \<Rightarrow>
                    let capabilities = getPlanCapabilities (planId user)
                    in if requestedFormat \<notin> set (allowedExportFormats capabilities)
                       then (Failed 403 ''Your plan allows PDF export only'', [])
                       else
                         (case audits db auditId of
                            None \<Rightarrow> (Failed 404 ''Not found'', [])
                          | Some audit \<Rightarrow>
                              if audit_userId audit \<noteq> sessionUserId
                              then (Failed 404 ''Not found'', [])
                              else
                                let b = exportBrand db sessionUserId capabilities origin;
                                    download = DownloadGet (fastApiId audit)
                                      (downloadParams requestedFormat lang capabilities b)
                                in (case upstream download of
                                      None \<Rightarrow> (Threw, [download])
                                    | Some fastapiRes \<Rightarrow>
                                        if res_status fastapiRes = 404 \<and> truthy (resultJson audit)
                                        then
                                          (case jsonParse (the (resultJson audit)) of
                                             None \<Rightarrow> (Threw, [download])
                                           | Some payload \<Rightarrow>
                                               let generate = GeneratePost
                                                     \<lparr> gen_format = requestedFormat,
                                                       gen_audit = payload,
                                                       gen_language = orElse lang (orElse (language audit) ''en''),
                                                       gen_show_watermark = showWatermark capabilities,
                                                       gen_brand = b \<rparr>
                                               in (case upstream generate of
                                                     None \<Rightarrow> (Threw, [download, generate])
                                                   | Some regenerateRes \<Rightarrow>
                                                       if \<not> ok regenerateRes
                                                       then (errorResponse (res_status regenerateRes)
                                                               ''Report generation failed'',
                                                             [download, generate])
                                                       else (Succeeded (artifactOf regenerateRes),
                                                             [download, generate])))
                                        else if \<not> ok fastapiRes
                                        then (errorResponse (res_status fastapiRes) ''Export failed'',
                                              [download])
                                        else (Succeeded (artifactOf fastapiRes), [download])))))"

text \<open>
  A stand-in for \<open>JSON.parse\<close> at concrete inputs: it knows the text \<open>{}\<close> (the empty
  object, kept as its text) and takes every other text as malformed. It is used only
  on the text \<open>{}\<close>.
\<close>

definition parseEmptyObject :: "string \<Rightarrow> string option" where
  "parseEmptyObject s = (if s = ''{}'' then Some ''{}'' else None)"

section \<open>Brand settings route (PUT /api/brand-settings)\<close>

text \<open>
  A field of the request's JSON body: absent (\<open>undefined\<close>), \<open>null\<close>, a string, or
  another JSON value, of which the handler reads its truthiness and its conversion to
  a string. The body itself may fail to parse (\<open>req.json()\<close> rejects, and this handler
  does not catch it), be \<open>null\<close> (destructuring it throws), or hold the two fields.
\<close>

datatype jsValue = JUndefined | JNull | JString string | JOther bool string

datatype putBody = PutBodyInvalid | PutBodyNull | PutBody jsValue jsValue

definition companyNameInvalid :: "jsValue \<Rightarrow> bool" where
  "companyNameInvalid v =
     (case v of
        JUndefined \<Rightarrow> False
      | JNull \<Rightarrow> False
      | JString s \<Rightarrow> length s > 100
      | JOther t s \<Rightarrow> True)"

definition logoSupplied :: "jsValue \<Rightarrow> bool" where
  "logoSupplied v = (v \<noteq> JUndefined \<and> v \<noteq> JNull \<and> v \<noteq> JString [])"

text \<open>\<open>toApiLogoPath\<close> applied to a JSON value.\<close>

definition toApiLogoPathOf :: "(bool \<Rightarrow> string \<Rightarrow> bool) \<Rightarrow> jsValue \<Rightarrow> string option" where
  "toApiLogoPathOf hostParser v =
     (case v of
        JUndefined \<Rightarrow> toApiLogoPath hostParser None
      | JNull \<Rightarrow> toApiLogoPath hostParser None
      | JString s \<Rightarrow> toApiLogoPath hostParser (Some s)
      | JOther t s \<Rightarrow> if t then toApiLogoPath hostParser (Some s) else None)"

text \<open>
  What the upsert writes for a field: \<open>undefined\<close> leaves a stored value as it is (and
  creates it as \<open>null\<close>), \<open>null\<close> stores \<open>null\<close>, a string stores the string.
\<close>

definition writeField :: "jsValue \<Rightarrow> string option \<Rightarrow> string option" where
  "writeField v old =
     (case v of
        JUndefined \<Rightarrow> old
      | JNull \<Rightarrow> None
      | JString s \<Rightarrow> Some s
      | JOther t s \<Rightarrow> Some s)"

definition upsertBrandSettings :: "database \<Rightarrow> string \<Rightarrow> jsValue \<Rightarrow> jsValue \<Rightarrow> brandRow" where
  "upsertBrandSettings db userId name logo =
     (case brandSettings db userId of
        Some row \<Rightarrow> row \<lparr> companyName := writeField name (companyName row),
                          logoUrl := writeField logo (logoUrl row) \<rparr>
      | None \<Rightarrow> \<lparr> companyName = writeField name None, logoUrl = writeField logo None,
                  primaryColor = None, accentColor = None \<rparr>)"

definition PUT_brandSettings ::
  "(bool \<Rightarrow> string \<Rightarrow> bool) \<Rightarrow> database \<Rightarrow> string option \<Rightarrow> putBody
   \<Rightarrow> brandRow outcome \<times> database" where
  "PUT_brandSettings hostParser db session body =
     (case session of
        None \<Rightarrow> (Failed 401 ''Unauthorized'', db)
      | Some sessionUserId \<Rightarrow>
          if (case users db sessionUserId of None \<Rightarrow> True | Some user \<Rightarrow> planId user \<noteq> Some ''agency'')
          then (Failed 403 ''Agency plan required'', db)
          else
            (case body of
               PutBodyInvalid \<Rightarrow> (Threw, db)
             | PutBodyNull \<Rightarrow> (Threw, db)
             | PutBody name logo \<Rightarrow>
                 if companyNameInvalid name
                 then (Failed 400 ''Company name must be a string under 100 characters'', db)
                 else if logoSupplied logo \<and> toApiLogoPathOf hostParser logo = None
                 then (Failed 400 ''Invalid logo URL'', db)
                 else
                   let normalizedLogoUrl =
                         (if logoSupplied logo
                          then JString (the (toApiLogoPathOf hostParser logo)) else logo);
                       branding = upsertBrandSettings db sessionUserId name normalizedLogoUrl
                   in (Succeeded branding,
                       db \<lparr> brandSettings := (brandSettings db)(sessionUserId \<mapsto> branding) \<rparr>)))"

section \<open>Search Console disconnect route (DELETE /api/indexing/gsc/disconnect)\<close>

text \<open>
  The writes of this handler. A write throws when the record it updates is missing;
  \<open>faults w\<close> tells whether the store rejects the write \<open>w\<close> for a reason of its own (a
  lost connection, a timeout), in which case it throws too.
\<close>

datatype dbWrite =
  AccountClearTokens string
| UserClearGsc string
| SiteDeleteMany string

definition applyWrite :: "database \<Rightarrow> dbWrite \<Rightarrow> database option" where
  "applyWrite db w =
     (case w of
        AccountClearTokens accountId \<Rightarrow>
          (case accounts db accountId of
             None \<Rightarrow> None
           | Some a \<Rightarrow>
               Some (db \<lparr> accounts := (accounts db)(accountId \<mapsto>
                       a \<lparr> access_token := None, refresh_token := None,
                           expires_at := None, scope := None \<rparr>) \<rparr>))
      | UserClearGsc userId \<Rightarrow>
          (case users db userId of
             None \<Rightarrow> None
           | Some u \<Rightarrow>
               Some (db \<lparr> users := (users db)(userId \<mapsto>
                       u \<lparr> gscConnected := False, gscConnectedAt := None \<rparr>) \<rparr>))
      | SiteDeleteMany userId \<Rightarrow>
          Some (db \<lparr> sites := (\<lambda>k. case sites db k of
                                      None \<Rightarrow> None
                                    | Some s \<Rightarrow> if site_userId s = userId then None else Some s) \<rparr>))"

definition runWrite :: "(dbWrite \<Rightarrow> bool) \<Rightarrow> database \<Rightarrow> dbWrite \<Rightarrow> database option" where
  "runWrite faults db w = (if faults w then None else applyWrite db w)"

text \<open>
  \<open>prisma.$transaction([...])\<close>: the writes run in order inside one database
  transaction, which commits when all have succeeded and is rolled back when one
  throws. \<open>None\<close> is the rolled back transaction: the caller keeps the database it had.
\<close>

fun transaction :: "(dbWrite \<Rightarrow> bool) \<Rightarrow> database \<Rightarrow> dbWrite list \<Rightarrow> database option" where
  "transaction faults db [] = Some db"
| "transaction faults db (w # ws) =
     (case runWrite faults db w of
        None \<Rightarrow> None
      | Some db' \<Rightarrow> transaction faults db' ws)"

text \<open>
  The last step of the handler: clear the connection state of the user, and with
  \<open>deleteData\<close> delete the user's sites in the same transaction.
\<close>

definition clearGscState ::
  "(dbWrite \<Rightarrow> bool) \<Rightarrow> database \<Rightarrow> string \<Rightarrow> bool \<Rightarrow> database option" where
  "clearGscState faults db userId deleteData =
     (if deleteData
      then transaction faults db [UserClearGsc userId, SiteDeleteMany userId]
      else runWrite faults db (UserClearGsc userId))"

text \<open>
  The handler. \<open>getGoogleAccount\<close> (lib/google-auth, not among the sources) is a
  parameter: for a database and a user id it gives the id and the row of the user's
  Google account, or \<open>None\<close>. The result is the outcome, the access token sent to
  Google for revocation (if any; a failure of that call is caught and ignored), and
  the database after the request.
\<close>

definition DELETE_disconnect ::
  "(database \<Rightarrow> string \<Rightarrow> (string \<times> accountRow) option) \<Rightarrow> (dbWrite \<Rightarrow> bool) \<Rightarrow> database
   \<Rightarrow> string option \<Rightarrow> string option \<Rightarrow> unit outcome \<times> string option \<times> database" where
  "DELETE_disconnect getGoogleAccount faults db session deleteDataParam =
     (case session of
        None \<Rightarrow> (Failed 401 ''Unauthorized'', None, db)
      | Some sessionUserId \<Rightarrow>
          let deleteData = (deleteDataParam \<noteq> Some ''false'');
              account = getGoogleAccount db sessionUserId;
              revoked = (case account of
                           None \<Rightarrow> None
                         | Some (accountId, a) \<Rightarrow> keepTruthy (access_token a));
              cleared = (case account of
                           None \<Rightarrow> Some db
                         | Some (accountId, a) \<Rightarrow> runWrite faults db (AccountClearTokens accountId))
          in (case cleared of
                None \<Rightarrow> (Threw, revoked, db)
              | Some db1 \<Rightarrow>
                  (case clearGscState faults db1 sessionUserId deleteData of
                     None \<Rightarrow> (Threw, revoked, db1)
                   | Some db2 \<Rightarrow> (Succeeded (), revoked, db2))))"

section \<open>Auto-index route (app/api/indexing/sites/[siteId]/auto-index/route.ts)\<close>

text \<open>
  The request's JSON body: it fails to parse (caught: 400), it is \<open>null\<close> (reading
  \<open>body.google\<close> throws), or it is a value whose \<open>google\<close> and \<open>bing\<close> are each a boolean
  (\<open>Some\<close>) or anything else (\<open>None\<close>).
\<close>

datatype patchBody = PatchBodyInvalid | PatchBodyNull | PatchBody "bool option" "bool option"

text \<open>\<open>user?.plan?.autoIndexing\<close> of the user's plan, read through the relation.\<close>

definition planAutoIndexing :: "database \<Rightarrow> string \<Rightarrow> bool" where
  "planAutoIndexing db userId =
     (case users db userId of
        None \<Rightarrow> False
      | Some user \<Rightarrow>
          (case planId user of
             None \<Rightarrow> False
           | Some p \<Rightarrow> (case plans db p of None \<Rightarrow> False | Some plan \<Rightarrow> autoIndexing plan)))"

definition updateSite :: "siteRow \<Rightarrow> bool option \<Rightarrow> bool option \<Rightarrow> siteRow" where
  "updateSite site google bing =
     site \<lparr> autoIndexGoogle := (case google of None \<Rightarrow> autoIndexGoogle site | Some g \<Rightarrow> g),
            autoIndexBing := (case bing of None \<Rightarrow> autoIndexBing site | Some b \<Rightarrow> b) \<rparr>"

definition PATCH_autoIndex ::
  "database \<Rightarrow> string option \<Rightarrow> string \<Rightarrow> patchBody \<Rightarrow> (bool \<times> bool) outcome \<times> database" where
  "PATCH_autoIndex db session siteId body =
     (case session of
        None \<Rightarrow> (Failed 401 ''Unauthorized'', db)
      | Some sessionUserId \<Rightarrow>
          (case sites db siteId of
             None \<Rightarrow> (Failed 404 ''Site not found'', db)
           | Some site \<Rightarrow>
               if site_userId site \<noteq> sessionUserId then (Failed 404 ''Site not found'', db)
               else
                 (case body of
                    PatchBodyInvalid \<Rightarrow> (Failed 400 ''Invalid JSON body'', db)
                  | PatchBodyNull \<Rightarrow> (Threw, db)
                  | PatchBody google bing \<Rightarrow>
                      if google = None \<and> bing = None
                      then (Failed 400 ''No fields to update'', db)
                      else if (google = Some True \<or> bing = Some True)
                              \<and> \<not> planAutoIndexing db sessionUserId
                      then (Failed 403 ''Auto-indexing is not available on your plan'', db)
                      else
                        let updated = updateSite site google bing
                        in (Succeeded (autoIndexGoogle updated, autoIndexBing updated),
                            db \<lparr> sites := (sites db)(siteId \<mapsto> updated) \<rparr>))))"

section \<open>Notions used to state the properties\<close>

text \<open>
  A path is clean when no segment is a dot segment and no segment holds a slash; an
  opaque path is clean when it does not start with a slash.
\<close>

definition cleanSegments :: "string list \<Rightarrow> bool" where
  "cleanSegments path =
     list_all (\<lambda>s. \<not> isSingleDotSegment s \<and> \<not> isDoubleDotSegment s \<and> CHR ''/'' \<notin> set s) path"

definition cleanPath :: "urlPath \<Rightarrow> bool" where
  "cleanPath p =
     (case p of
        OpaquePath s \<Rightarrow> \<not> startsWith s ''/''
      | ListPath segments \<Rightarrow> cleanSegments segments)"

section \<open>A database and a report service for concrete requests\<close>

text \<open>
  The plans are those of the seed. User \<open>u1\<close> is on the free plan and owns the audits
  \<open>a1\<close> (cached result \<open>{}\<close>) and \<open>a3\<close> (cached result the empty string) and the site
  \<open>s1\<close>; user \<open>u2\<close> is on the agency plan and owns the audit \<open>a2\<close> and the site \<open>s2\<close>.
\<close>

definition exampleDb :: database where
  "exampleDb =
     \<lparr> users = [''u1'' \<mapsto> \<lparr> planId = Some ''free'', gscConnected = True, gscConnectedAt = Some 1 \<rparr>,
                ''u2'' \<mapsto> \<lparr> planId = Some ''agency'', gscConnected = True, gscConnectedAt = Some 2 \<rparr>],
       plans = [''free'' \<mapsto> \<lparr> autoIndexing = False \<rparr>,
                ''pro'' \<mapsto> \<lparr> autoIndexing = True \<rparr>,
                ''agency'' \<mapsto> \<lparr> autoIndexing = True \<rparr>],
       audits = [''a1'' \<mapsto> \<lparr> audit_userId = ''u1'', fastApiId = ''f1'',
                                resultJson = Some ''{}'', language = None \<rparr>,
                 ''a2'' \<mapsto> \<lparr> audit_userId = ''u2'', fastApiId = ''f2'',
                                resultJson = None, language = Some ''uk'' \<rparr>,
                 ''a3'' \<mapsto> \<lparr> audit_userId = ''u1'', fastApiId = ''f3'',
                                resultJson = Some [], language = None \<rparr>],
       brandSettings = Map.empty,
       sites = [''s1'' \<mapsto> \<lparr> site_userId = ''u1'', autoIndexGoogle = False, autoIndexBing = True \<rparr>,
                ''s2'' \<mapsto> \<lparr> site_userId = ''u2'', autoIndexGoogle = True, autoIndexBing = True \<rparr>],
       accounts = [''g1'' \<mapsto> \<lparr> access_token = Some ''token'', refresh_token = Some ''refresh'',
                                  expires_at = Some 3, scope = Some ''webmasters'' \<rparr>] \<rparr>"

text \<open>
  A report service that has evicted every audit (each download answers 404) and
  answers a generation request with the given status and a PDF.
\<close>

definition evictedUpstream :: "nat \<Rightarrow> string upstreamRequest \<Rightarrow> upstreamResponse option" where
  "evictedUpstream generateStatus request =
     (case request of
        DownloadGet fastApi params \<Rightarrow>
          Some \<lparr> res_status = 404, res_contentType = Some ''application/json'',
                 res_contentDisposition = None, res_body = ''{}'' \<rparr>
      | GeneratePost body \<Rightarrow>
          Some \<lparr> res_status = generateStatus, res_contentType = Some ''application/pdf'',
                 res_contentDisposition = None, res_body = ''%PDF'' \<rparr>)"

definition googleAccountOfExample :: "database \<Rightarrow> string \<Rightarrow> (string \<times> accountRow) option" where
  "googleAccountOfExample db userId =
     (if userId = ''u1''
      then (case accounts db ''g1'' of None \<Rightarrow> None | Some a \<Rightarrow> Some (''g1'', a))
      else None)"

text \<open>A store that rejects no write, and one that rejects the deletion of the sites of \<open>u1\<close>.\<close>

definition noFaults :: "dbWrite \<Rightarrow> bool" where
  "noFaults w = False"

definition siteDeletionFails :: "dbWrite \<Rightarrow> bool" where
  "siteDeletionFails w = (w = SiteDeleteMany ''u1'')"

section \<open>Properties of the plan capabilities\<close>

text \<open>
  C2. \<open>getPlanCapabilities\<close> is defined on every plan identifier, the absent one included.
  The formats are pdf, html and docx, with branding and unlimited audits, exactly for
  the identifier agency; the watermark is shown exactly for the identifier free; every
  other identifier gets pdf only, no branding, no watermark and limited audits.
\<close>

theorem getPlanCapabilities_policy:
  "set (allowedExportFormats (getPlanCapabilities plan)) =
     (if plan = Some ''agency'' then {''pdf'', ''html'', ''docx''} else {''pdf''})
   \<and> canUseBranding (getPlanCapabilities plan) = (plan = Some ''agency'')
   \<and> unlimitedAudits (getPlanCapabilities plan) = (plan = Some ''agency'')
   \<and> showWatermark (getPlanCapabilities plan) = (plan = Some ''free'')
   \<and> getPlanCapabilities plan =
       (if plan = Some ''agency''
        then \<lparr> allowedExportFormats = [''pdf'', ''html'', ''docx''], canUseBranding = True,
               showWatermark = False, unlimitedAudits = True \<rparr>
        else if plan = Some ''free''
        then \<lparr> allowedExportFormats = [''pdf''], canUseBranding = False,
               showWatermark = True, unlimitedAudits = False \<rparr>
        else \<lparr> allowedExportFormats = [''pdf''], canUseBranding = False,
               showWatermark = False, unlimitedAudits = False \<rparr>)"
  by (simp add: getPlanCapabilities_def Let_def)

section \<open>Properties of the URL pathname and the logo path\<close>


lemma hexDigit_not_slash: "n < 16 \<Longrightarrow> hexDigit n \<noteq> CHR ''/''"
proof -
  assume "n < 16"
  then have "hexDigit n \<in> set ''0123456789ABCDEF''"
    unfolding hexDigit_def by (intro nth_mem) simp
  then show ?thesis by auto
qed

lemma charCode_less: "charCode c < 256"
  by (simp add: charCode_def)

lemma percentEncodeByte_no_slash: "b < 256 \<Longrightarrow> CHR ''/'' \<notin> set (percentEncodeByte b)"
proof -
  assume b: "b < 256"
  then have "b div 16 < 16" by simp
  moreover have "b mod 16 < 16" by simp
  ultimately show ?thesis
    using hexDigit_not_slash [of "b div 16"] hexDigit_not_slash [of "b mod 16"]
    by (auto simp: percentEncodeByte_def)
qed

lemma utf8PercentEncode_no_slash: "CHR ''/'' \<notin> set (utf8PercentEncode c)"
proof -
  have c: "charCode c < 256" by (rule charCode_less)
  then have "192 + charCode c div 64 < 256" "128 + charCode c mod 64 < 256" by auto
  with c show ?thesis
    by (simp add: utf8PercentEncode_def percentEncodeByte_no_slash)
qed

lemma pathEncode_no_slash: "c \<noteq> CHR ''/'' \<Longrightarrow> CHR ''/'' \<notin> set (pathEncode c)"
  by (simp add: pathEncode_def utf8PercentEncode_no_slash)


lemma cleanSegments_Nil: "cleanSegments []"
  by (simp add: cleanSegments_def)

lemma cleanSegments_empty_segment: "cleanSegments path \<Longrightarrow> cleanSegments (path @ [''''])"
  by (simp add: cleanSegments_def isSingleDotSegment_def isDoubleDotSegment_def)

lemma cleanSegments_butlast: "cleanSegments path \<Longrightarrow> cleanSegments (butlast path)"
  by (auto simp: cleanSegments_def list_all_iff dest: in_set_butlastD)

lemma cleanSegments_shortenPath: "cleanSegments path \<Longrightarrow> cleanSegments (shortenPath isFile path)"
  by (simp add: shortenPath_def cleanSegments_butlast)

lemma driveLetter_clean:
  assumes "isWindowsDriveLetter buffer"
  shows "\<not> isSingleDotSegment [hd buffer, CHR '':''] \<and> \<not> isDoubleDotSegment [hd buffer, CHR '':'']
         \<and> CHR ''/'' \<notin> set [hd buffer, CHR '':'']"
proof -
  from assms obtain x y where b: "buffer = [x, y]" and x: "isAsciiAlpha x"
    by (auto simp: isWindowsDriveLetter_def split: list.splits)
  from x have "x \<noteq> CHR ''/''"
    by (auto simp: isAsciiAlpha_def isAsciiUpper_def isAsciiLowerAlpha_def charCode_def)
  with b show ?thesis
    by (simp add: isSingleDotSegment_def isDoubleDotSegment_def)
qed

lemma cleanSegments_snoc:
  "cleanSegments path \<Longrightarrow> \<not> isSingleDotSegment s \<Longrightarrow> \<not> isDoubleDotSegment s
   \<Longrightarrow> CHR ''/'' \<notin> set s \<Longrightarrow> cleanSegments (path @ [s])"
  by (simp add: cleanSegments_def)

lemma cleanSegments_endSegment:
  assumes "cleanSegments path" and "CHR ''/'' \<notin> set buffer"
  shows "cleanSegments (endSegment isFile path buffer slash)"
proof -
  have short: "cleanSegments (shortenPath isFile path)"
    using assms(1) by (rule cleanSegments_shortenPath)
  consider (double) "isDoubleDotSegment buffer"
    | (single) "\<not> isDoubleDotSegment buffer" "isSingleDotSegment buffer"
    | (drive) "\<not> isDoubleDotSegment buffer" "\<not> isSingleDotSegment buffer"
        "isFile \<and> path = [] \<and> isWindowsDriveLetter buffer"
    | (plain) "\<not> isDoubleDotSegment buffer" "\<not> isSingleDotSegment buffer"
        "\<not> (isFile \<and> path = [] \<and> isWindowsDriveLetter buffer)"
    by blast
  then show ?thesis
  proof cases
    case double
    then show ?thesis
      using short cleanSegments_empty_segment [OF short] by (simp add: endSegment_def)
  next
    case single
    then show ?thesis
      using assms(1) cleanSegments_empty_segment [OF assms(1)] by (simp add: endSegment_def)
  next
    case drive
    then have "cleanSegments (path @ [[hd buffer, CHR '':'']])"
      using driveLetter_clean [of buffer] assms(1) by (intro cleanSegments_snoc) simp_all
    with drive show ?thesis by (simp add: endSegment_def)
  next
    case plain
    then have "cleanSegments (path @ [buffer])"
      using assms by (intro cleanSegments_snoc) simp_all
    with plain show ?thesis by (auto simp: endSegment_def)
  qed
qed

lemma cleanSegments_pathState:
  "cleanSegments path \<Longrightarrow> CHR ''/'' \<notin> set buffer
   \<Longrightarrow> cleanSegments (pathState special isFile path buffer cs)"
proof (induction cs arbitrary: path buffer)
  case Nil
  then show ?case by (simp add: cleanSegments_endSegment)
next
  case (Cons c cs)
  consider (slash) "c = CHR ''/'' \<or> (special \<and> c = CHR 0x5C)"
    | (stop) "\<not> (c = CHR ''/'' \<or> (special \<and> c = CHR 0x5C))" "c = CHR ''?'' \<or> c = CHR ''#''"
    | (other) "\<not> (c = CHR ''/'' \<or> (special \<and> c = CHR 0x5C))" "\<not> (c = CHR ''?'' \<or> c = CHR ''#'')"
    by blast
  then show ?case
  proof cases
    case slash
    have "cleanSegments (pathState special isFile (endSegment isFile path buffer True) [] cs)"
      using Cons.prems by (intro Cons.IH cleanSegments_endSegment) simp_all
    with slash show ?thesis by (simp only: pathState.simps if_True)
  next
    case stop
    have "cleanSegments (endSegment isFile path buffer False)"
      using Cons.prems by (rule cleanSegments_endSegment)
    with stop show ?thesis by (simp only: pathState.simps if_True if_False)
  next
    case other
    then have "CHR ''/'' \<notin> set (buffer @ pathEncode c)"
      using Cons.prems(2) pathEncode_no_slash [of c] by simp
    then have "cleanSegments (pathState special isFile path (buffer @ pathEncode c) cs)"
      using Cons.prems(1) by (intro Cons.IH)
    with other show ?thesis by (simp only: pathState.simps if_False)
  qed
qed

declare pathState.simps [simp del]

lemma cleanSegments_pathStartState: "cleanSegments (pathStartState special isFile s)"
  unfolding pathStartState_def
  by (auto simp: cleanSegments_pathState cleanSegments_Nil split: list.splits)

lemma startsWith_slash_iff: "startsWith s ''/'' = (\<exists>r. s = CHR ''/'' # r)"
  by (cases s) (auto simp: startsWith_def)

lemma opaquePathState_no_leading_slash:
  "\<not> startsWith s ''/'' \<Longrightarrow> \<not> startsWith (opaquePathState s) ''/''"
proof (cases s)
  case Nil
  then show ?thesis by (simp add: startsWith_slash_iff)
next
  case (Cons c cs)
  assume "\<not> startsWith s ''/''"
  with Cons have c: "c \<noteq> CHR ''/''" by (simp add: startsWith_slash_iff)
  obtain r where enc: "utf8PercentEncode c = CHR ''%'' # r"
    by (cases "charCode c < 128") (simp_all add: utf8PercentEncode_def percentEncodeByte_def)
  obtain x where sp: "(case cs of [] \<Rightarrow> '' ''
       | d # ds \<Rightarrow> if d = CHR ''?'' \<or> d = CHR ''#'' then ''%20'' else '' '') = x"
      and x: "x = '' '' \<or> x = ''%20''"
    by (cases cs) auto
  have "opaquePathState (c # cs) = []
        \<or> (\<exists>t. opaquePathState (c # cs) = CHR '' '' # t)
        \<or> (\<exists>t. opaquePathState (c # cs) = CHR ''%'' # t)
        \<or> (\<exists>t. opaquePathState (c # cs) = c # t)"
    using enc x unfolding opaquePathState.simps sp by auto
  with c Cons show ?thesis
    by (auto simp: startsWith_slash_iff)
qed

declare opaquePathState.simps [simp del]

lemma cleanPath_portState: "portState special port rest = Some p \<Longrightarrow> cleanPath p"
  by (auto simp: portState_def cleanPath_def cleanSegments_pathStartState split: if_splits)

lemma cleanPath_hostState: "hostState hostParser special hostPort rest = Some p \<Longrightarrow> cleanPath p"
  by (auto simp: hostState_def cleanPath_def cleanSegments_pathStartState
           split: prod.splits option.splits if_splits dest: cleanPath_portState)

lemma cleanPath_authorityState: "authorityState hostParser special s = Some p \<Longrightarrow> cleanPath p"
  by (auto simp: authorityState_def Let_def split: if_splits dest: cleanPath_hostState)

lemma cleanPath_ignoreSlashes:
  "specialAuthorityIgnoreSlashesState hostParser s = Some p \<Longrightarrow> cleanPath p"
  by (auto simp: specialAuthorityIgnoreSlashesState_def dest: cleanPath_authorityState)

lemma cleanPath_specialAuthoritySlashes:
  "specialAuthoritySlashesState hostParser s = Some p \<Longrightarrow> cleanPath p"
  by (auto simp: specialAuthoritySlashesState_def split: if_splits dest: cleanPath_ignoreSlashes)

lemma cleanPath_pathState_Nil:
  "cleanPath (ListPath (pathState special isFile [] [] s))"
  by (simp add: cleanPath_def cleanSegments_pathState cleanSegments_Nil)

lemma cleanPath_relativeSlashState:
  "relativeSlashState hostParser s = Some p \<Longrightarrow> cleanPath p"
  using cleanPath_pathState_Nil [of True False]
  by (auto simp: relativeSlashState_def split: list.splits if_splits dest: cleanPath_ignoreSlashes)

lemma cleanSegments_basePath: "cleanSegments basePath"
  by (simp add: basePath_def cleanSegments_def isSingleDotSegment_def isDoubleDotSegment_def)

lemma cleanPath_relativeState:
  "relativeState hostParser s = Some p \<Longrightarrow> cleanPath p"
  using cleanSegments_basePath
  by (auto simp: relativeState_def cleanPath_def cleanSegments_pathState cleanSegments_shortenPath
           split: list.splits if_splits dest: cleanPath_relativeSlashState)

lemma cleanPath_specialRelativeOrAuthority:
  "specialRelativeOrAuthorityState hostParser s = Some p \<Longrightarrow> cleanPath p"
  by (auto simp: specialRelativeOrAuthorityState_def split: if_splits
           dest: cleanPath_ignoreSlashes cleanPath_relativeState)

lemma cleanPath_pathOrAuthority:
  "pathOrAuthorityState hostParser s = Some p \<Longrightarrow> cleanPath p"
  using cleanPath_pathState_Nil [of False False]
  by (auto simp: pathOrAuthorityState_def split: list.splits if_splits dest: cleanPath_authorityState)

lemma driveLetter_no_slash: "isWindowsDriveLetter b \<Longrightarrow> CHR ''/'' \<notin> set b"
  by (auto simp: isWindowsDriveLetter_def isAsciiAlpha_def isAsciiUpper_def isAsciiLowerAlpha_def
                 charCode_def split: list.splits)

lemma cleanPath_fileHostState:
  "fileHostState hostParser s = Some p \<Longrightarrow> cleanPath p"
  by (auto simp: fileHostState_def Let_def cleanPath_def cleanSegments_pathStartState
                 cleanSegments_pathState cleanSegments_Nil driveLetter_no_slash
           split: if_splits)

lemma cleanPath_fileSlashState:
  "fileSlashState hostParser s = Some p \<Longrightarrow> cleanPath p"
  using cleanPath_pathState_Nil [of True True]
  by (auto simp: fileSlashState_def split: list.splits if_splits dest: cleanPath_fileHostState)

lemma cleanPath_fileState:
  "fileState hostParser s = Some p \<Longrightarrow> cleanPath p"
  using cleanPath_pathState_Nil [of True True]
  by (auto simp: fileState_def split: list.splits if_splits dest: cleanPath_fileSlashState)

lemma cleanPath_basicUrlParser:
  "basicUrlParser hostParser input = Some p \<Longrightarrow> cleanPath p"
  unfolding basicUrlParser_def Let_def
  by (auto split: option.splits prod.splits if_splits
           simp: cleanPath_def opaquePathState_no_leading_slash
           dest: cleanPath_relativeState cleanPath_fileState cleanPath_specialRelativeOrAuthority
                 cleanPath_specialAuthoritySlashes cleanPath_pathOrAuthority)

lemma isFilenameChar_code:
  "isFilenameChar c \<Longrightarrow>
     (48 \<le> charCode c \<and> charCode c \<le> 57) \<or> (65 \<le> charCode c \<and> charCode c \<le> 90)
     \<or> (97 \<le> charCode c \<and> charCode c \<le> 122) \<or> charCode c = 95 \<or> charCode c = 46
     \<or> charCode c = 45"
  by (auto simp: isFilenameChar_def isAsciiAlphanumeric_def isAsciiAlpha_def isAsciiUpper_def
                 isAsciiLowerAlpha_def isAsciiDigit_def charCode_def)

lemma isFilenameChar_plain:
  assumes "isFilenameChar c"
  shows "c \<noteq> CHR ''/''" "c \<noteq> CHR 0x5C" "c \<noteq> CHR ''?''" "c \<noteq> CHR ''#''" "c \<noteq> CHR ''%''"
    "\<not> inPathPercentEncodeSet c" "\<not> isC0ControlOrSpace c" "\<not> isAsciiTabOrNewline c"
  using isFilenameChar_code [OF assms]
  by (auto simp: inPathPercentEncodeSet_def inQueryPercentEncodeSet_def
                 inC0ControlPercentEncodeSet_def isC0ControlOrSpace_def isAsciiTabOrNewline_def
                 charCode_def)

lemma pathEncode_filenameChar: "isFilenameChar c \<Longrightarrow> pathEncode c = [c]"
  by (simp add: pathEncode_def isFilenameChar_plain)

lemma asciiLowercase_filenameChar: "isFilenameChar c \<Longrightarrow> asciiLowercase c \<noteq> CHR ''%''"
proof
  assume f: "isFilenameChar c" and l: "asciiLowercase c = CHR ''%''"
  show False
  proof (cases "isAsciiUpper c")
    case True
    then have "charCode (asciiLowercase c) = charCode c + 32"
      by (simp add: asciiLowercase_def isAsciiUpper_def charCode_def)
    with True l show False
      by (simp add: isAsciiUpper_def charCode_def)
  next
    case False
    with l have "c = CHR ''%''" by (simp add: asciiLowercase_def)
    with isFilenameChar_plain(5) [OF f] show False by simp
  qed
qed

lemma no_percent_lowercase:
  assumes "list_all isFilenameChar f"
  shows "CHR ''%'' \<notin> set (map asciiLowercase f)"
proof
  assume "CHR ''%'' \<in> set (map asciiLowercase f)"
  then obtain c where "c \<in> set f" and "asciiLowercase c = CHR ''%''" by auto
  moreover from this assms have "isFilenameChar c" by (simp add: list_all_iff)
  ultimately show False using asciiLowercase_filenameChar by blast
qed

lemma filename_isSingleDotSegment:
  "list_all isFilenameChar f \<Longrightarrow> isSingleDotSegment f = (f = ''.'')"
  using no_percent_lowercase [of f] by (auto simp: isSingleDotSegment_def)

lemma filename_isDoubleDotSegment:
  "list_all isFilenameChar f \<Longrightarrow> isDoubleDotSegment f = (f = ''..'')"
  using no_percent_lowercase [of f] by (auto simp: isDoubleDotSegment_def)

lemma pathState_filename:
  "list_all isFilenameChar cs
   \<Longrightarrow> pathState special isFile path buffer cs = endSegment isFile path (buffer @ cs) False"
proof (induction cs arbitrary: buffer)
  case Nil
  then show ?case by (simp add: pathState.simps)
next
  case (Cons c cs)
  then have c: "isFilenameChar c" and cs: "list_all isFilenameChar cs" by simp_all
  show ?case
    using Cons.IH [OF cs, of "buffer @ [c]"] isFilenameChar_plain [OF c]
    by (simp add: pathState.simps pathEncode_filenameChar [OF c])
qed

lemma same_tail:
  assumes "xs @ CHR ''/'' # s = ys @ CHR ''/'' # f"
    and "CHR ''/'' \<notin> set s" and "CHR ''/'' \<notin> set f"
  shows "s = f"
proof -
  have tw: "takeWhile (\<lambda>c. c \<noteq> CHR ''/'') (rev (zs @ CHR ''/'' # t)) = rev t"
    if "CHR ''/'' \<notin> set t" for zs t
  proof -
    have "takeWhile (\<lambda>c. c \<noteq> CHR ''/'') (rev t @ CHR ''/'' # rev zs)
          = rev t @ takeWhile (\<lambda>c. c \<noteq> CHR ''/'') (CHR ''/'' # rev zs)"
      using that by (intro takeWhile_append2) auto
    then show ?thesis by simp
  qed
  from assms(1) have "takeWhile (\<lambda>c. c \<noteq> CHR ''/'') (rev (xs @ CHR ''/'' # s))
      = takeWhile (\<lambda>c. c \<noteq> CHR ''/'') (rev (ys @ CHR ''/'' # f))"
    by simp
  then have "rev s = rev f"
    by (simp only: tw [OF assms(2)] tw [OF assms(3)])
  then show ?thesis by simp
qed

lemma serializePath_last:
  assumes "cleanSegments p"
    and "serializePath (ListPath p) = a @ CHR ''/'' # f"
    and "CHR ''/'' \<notin> set f"
  shows "p \<noteq> [] \<and> last p = f"
proof (cases p rule: rev_cases)
  case Nil
  with assms(2) show ?thesis by (simp add: serializePath_def)
next
  case (snoc q s)
  with assms(1) have s: "CHR ''/'' \<notin> set s" by (simp add: cleanSegments_def)
  from snoc assms(2)
  have "concat (map (\<lambda>segment. CHR ''/'' # segment) q) @ CHR ''/'' # s = a @ CHR ''/'' # f"
    by (simp add: serializePath_def)
  then have "s = f" using s assms(3) by (rule same_tail)
  with snoc show ?thesis by simp
qed

lemma pathname_filename_not_dot:
  assumes "urlPathname hostParser u = Some (CHR ''/'' # a @ CHR ''/'' # f)"
    and "list_all isFilenameChar f"
  shows "f \<noteq> ''.'' \<and> f \<noteq> ''..''"
proof -
  from assms(1) obtain p where p: "basicUrlParser hostParser u = Some p"
    and ser: "serializePath p = CHR ''/'' # a @ CHR ''/'' # f"
    by (auto simp: urlPathname_def)
  from p have clean: "cleanPath p" by (rule cleanPath_basicUrlParser)
  from assms(2) have nf: "CHR ''/'' \<notin> set f"
    using isFilenameChar_plain(1) by (auto simp: list_all_iff)
  show ?thesis
  proof (cases p)
    case (OpaquePath s)
    with clean ser show ?thesis
      by (simp add: cleanPath_def serializePath_def startsWith_slash_iff)
  next
    case (ListPath segments)
    with clean have cs: "cleanSegments segments" by (simp add: cleanPath_def)
    from ser ListPath have "serializePath (ListPath segments) = (CHR ''/'' # a) @ CHR ''/'' # f"
      by simp
    with cs have "segments \<noteq> [] \<and> last segments = f"
      using nf by (rule serializePath_last)
    then have "f \<in> set segments" using last_in_set by blast
    with cs have "\<not> isSingleDotSegment f \<and> \<not> isDoubleDotSegment f"
      by (auto simp: cleanSegments_def list_all_iff)
    then show ?thesis
      by (auto simp: isSingleDotSegment_def isDoubleDotSegment_def)
  qed
qed

lemma dropWhile_id: "xs \<noteq> [] \<Longrightarrow> \<not> P (hd xs) \<Longrightarrow> dropWhile P xs = xs"
  by (cases xs) simp_all

lemma prepareInput_canonical:
  assumes "matchesFILENAME_RE f"
  shows "prepareInput (''/api/upload/logo/'' @ f) = ''/api/upload/logo/'' @ f"
proof -
  let ?x = "''/api/upload/logo/'' @ f"
  from assms have ne: "f \<noteq> []" and all: "list_all isFilenameChar f"
    by (simp_all add: matchesFILENAME_RE_def)
  have front: "dropWhile isC0ControlOrSpace ?x = ?x"
    by (simp add: isC0ControlOrSpace_def charCode_def)
  from ne all have "isFilenameChar (last f)" by (simp add: list_all_iff)
  then have "\<not> isC0ControlOrSpace (hd (rev ?x))"
    using ne by (simp add: hd_rev isFilenameChar_plain)
  then have rear: "dropWhile isC0ControlOrSpace (rev ?x) = rev ?x"
    by (intro dropWhile_id) simp_all
  have "\<forall>c \<in> set ?x. \<not> isAsciiTabOrNewline c"
    using all isFilenameChar_plain(8) by (auto simp: list_all_iff isAsciiTabOrNewline_def)
  then have "filter (\<lambda>c. \<not> isAsciiTabOrNewline c) ?x = ?x"
    by (intro filter_True) simp
  with front rear show ?thesis
    unfolding prepareInput_def by (simp only: rev_rev_ident)
qed

lemma pathState_canonical:
  assumes "matchesFILENAME_RE f" and "f \<noteq> ''.''" and "f \<noteq> ''..''"
  shows "pathState True False [] [] (''api/upload/logo/'' @ f) = [''api'', ''upload'', ''logo'', f]"
proof -
  from assms(1) have all: "list_all isFilenameChar f" by (simp add: matchesFILENAME_RE_def)
  have plain: "pathEncode c = [c]" if "c \<in> set ''apiuploadlogo''" for c
    using that
    by (auto simp: pathEncode_def inPathPercentEncodeSet_def inQueryPercentEncodeSet_def
                   inC0ControlPercentEncodeSet_def charCode_def)
  have dots: "\<not> isDoubleDotSegment s \<and> \<not> isSingleDotSegment s"
    if "s \<in> set [''api'', ''upload'', ''logo'']" for s
    using that
    by (auto simp: isDoubleDotSegment_def isSingleDotSegment_def asciiLowercase_def
                   isAsciiUpper_def charCode_def)
  have "pathState True False [] [] (''api/upload/logo/'' @ f)
        = pathState True False [''api'', ''upload'', ''logo''] [] f"
    using dots by (simp add: pathState.simps plain endSegment_def)
  also have "\<dots> = endSegment False [''api'', ''upload'', ''logo''] f False"
    using pathState_filename [OF all, of True False _ "[]"] by simp
  also have "\<dots> = [''api'', ''upload'', ''logo'', f]"
    using assms(2,3) by (simp add: endSegment_def filename_isSingleDotSegment [OF all]
                                   filename_isDoubleDotSegment [OF all])
  finally show ?thesis .
qed

lemma urlPathname_canonical:
  assumes "matchesFILENAME_RE f" and "f \<noteq> ''.''" and "f \<noteq> ''..''"
  shows "urlPathname hostParser (''/api/upload/logo/'' @ f) = Some (''/api/upload/logo/'' @ f)"
proof -
  have scheme: "schemeState (''/api/upload/logo/'' @ f) = None"
    by (simp add: schemeState_def isAsciiAlpha_def isAsciiUpper_def isAsciiLowerAlpha_def
                  charCode_def)
  have rel: "relativeState hostParser (''/api/upload/logo/'' @ f)
        = Some (ListPath (pathState True False [] [] (''api/upload/logo/'' @ f)))"
    by (simp add: relativeState_def relativeSlashState_def isSlash_def)
  have "basicUrlParser hostParser (''/api/upload/logo/'' @ f)
        = relativeState hostParser (''/api/upload/logo/'' @ f)"
    unfolding basicUrlParser_def Let_def prepareInput_canonical [OF assms(1)] scheme by simp
  also have "\<dots> = Some (ListPath (pathState True False [] [] (''api/upload/logo/'' @ f)))"
    by (rule rel)
  also have "\<dots> = Some (ListPath [''api'', ''upload'', ''logo'', f])"
    by (simp only: pathState_canonical [OF assms])
  finally show ?thesis
    by (simp add: urlPathname_def serializePath_def)
qed

lemma startsWith_iff: "startsWith s p = (\<exists>r. s = p @ r)"
  unfolding startsWith_def
  by (metis append_eq_conv_conj append_take_drop_id)

lemma extractLogoFilenameFromUrl_Some:
  "extractLogoFilenameFromUrl hostParser x = Some f \<longleftrightarrow>
     (\<exists>u. x = Some u \<and> u \<noteq> [] \<and> matchesFILENAME_RE f
          \<and> (urlPathname hostParser u = Some (''/api/upload/logo/'' @ f)
               \<or> urlPathname hostParser u = Some (''/uploads/'' @ f)))"
proof
  assume "extractLogoFilenameFromUrl hostParser x = Some f"
  then show "\<exists>u. x = Some u \<and> u \<noteq> [] \<and> matchesFILENAME_RE f
          \<and> (urlPathname hostParser u = Some (''/api/upload/logo/'' @ f)
               \<or> urlPathname hostParser u = Some (''/uploads/'' @ f))"
    unfolding extractLogoFilenameFromUrl_def Let_def slice_def
    by (auto split: option.splits if_splits simp: startsWith_iff)
next
  assume "\<exists>u. x = Some u \<and> u \<noteq> [] \<and> matchesFILENAME_RE f
          \<and> (urlPathname hostParser u = Some (''/api/upload/logo/'' @ f)
               \<or> urlPathname hostParser u = Some (''/uploads/'' @ f))"
  then obtain u where u: "x = Some u" "u \<noteq> []" "matchesFILENAME_RE f"
    and p: "urlPathname hostParser u = Some (''/api/upload/logo/'' @ f)
               \<or> urlPathname hostParser u = Some (''/uploads/'' @ f)"
    by blast
  have notpre: "\<not> startsWith (''/uploads/'' @ f) ''/api/upload/logo/''"
    by (simp add: startsWith_def)
  from p show "extractLogoFilenameFromUrl hostParser x = Some f"
  proof
    assume "urlPathname hostParser u = Some (''/api/upload/logo/'' @ f)"
    with u show ?thesis
      unfolding extractLogoFilenameFromUrl_def Let_def slice_def
      by (simp add: startsWith_def)
  next
    assume "urlPathname hostParser u = Some (''/uploads/'' @ f)"
    with u notpre show ?thesis
      unfolding extractLogoFilenameFromUrl_def Let_def slice_def
      by (simp add: startsWith_def)
  qed
qed

lemma stringIncludes_no_slash: "CHR ''/'' \<notin> set s \<Longrightarrow> \<not> stringIncludes s ''../''"
proof (induction s)
  case Nil
  then show ?case by simp
next
  case (Cons c s)
  have "\<not> startsWith (c # s) ''../''"
  proof
    assume "startsWith (c # s) ''../''"
    then obtain r where "c # s = ''../'' @ r" unfolding startsWith_iff ..
    then have "CHR ''/'' \<in> set (c # s)" by simp
    with Cons.prems show False by simp
  qed
  with Cons show ?case by simp
qed

lemma canonical_no_traversal:
  assumes "matchesFILENAME_RE f"
  shows "\<not> stringIncludes (''/api/upload/logo/'' @ f) ''../''"
proof -
  from assms have "CHR ''/'' \<notin> set f"
    using isFilenameChar_plain(1) by (auto simp: matchesFILENAME_RE_def list_all_iff)
  then have "\<not> stringIncludes f ''../''" by (rule stringIncludes_no_slash)
  then show ?thesis by (simp add: startsWith_def)
qed

lemma toApiLogoPath_Some:
  "toApiLogoPath hostParser x = Some p \<longleftrightarrow>
     (\<exists>f. extractLogoFilenameFromUrl hostParser x = Some f \<and> p = ''/api/upload/logo/'' @ f)"
  by (auto simp: toApiLogoPath_def split: option.splits)

text \<open>
  C3 (amended). \<open>toApiLogoPath\<close> returns a path exactly when the input is a non-empty
  string whose pathname, as the URL parser resolves it against the placeholder base, is
  \<open>/api/upload/logo/<f>\<close> or \<open>/uploads/<f>\<close> with \<open><f>\<close> a non-empty run of the characters
  \<open>[A-Za-z0-9_.-]\<close>; the path returned is \<open>/api/upload/logo/<f>\<close>, and it holds no \<open>../\<close>.
  In every other case the result is null.
\<close>

theorem toApiLogoPath_accepts:
  "(toApiLogoPath hostParser x = Some p) =
     (\<exists>u f. x = Some u \<and> u \<noteq> [] \<and> matchesFILENAME_RE f
            \<and> (urlPathname hostParser u = Some (''/api/upload/logo/'' @ f)
                 \<or> urlPathname hostParser u = Some (''/uploads/'' @ f))
            \<and> p = ''/api/upload/logo/'' @ f)
   \<and> (toApiLogoPath hostParser x = Some p \<longrightarrow> \<not> stringIncludes p ''../'')"
proof
  show "(toApiLogoPath hostParser x = Some p) =
     (\<exists>u f. x = Some u \<and> u \<noteq> [] \<and> matchesFILENAME_RE f
            \<and> (urlPathname hostParser u = Some (''/api/upload/logo/'' @ f)
                 \<or> urlPathname hostParser u = Some (''/uploads/'' @ f))
            \<and> p = ''/api/upload/logo/'' @ f)"
    unfolding toApiLogoPath_Some extractLogoFilenameFromUrl_Some by blast
next
  show "toApiLogoPath hostParser x = Some p \<longrightarrow> \<not> stringIncludes p ''../''"
    unfolding toApiLogoPath_Some extractLogoFilenameFromUrl_Some
    using canonical_no_traversal by blast
qed

theorem toApiLogoPath_accepts_witness:
  "toApiLogoPath lettersAndDotsHost (Some ''/uploads/logo.png'') = Some ''/api/upload/logo/logo.png''
   \<and> \<not> stringIncludes ''/api/upload/logo/logo.png'' ''../''"
proof -
  have e: "toApiLogoPath lettersAndDotsHost (Some ''/uploads/logo.png'')
           = Some ''/api/upload/logo/logo.png''"
    by code_simp
  with toApiLogoPath_accepts [of lettersAndDotsHost "Some ''/uploads/logo.png''"
      "''/api/upload/logo/logo.png''"]
  show ?thesis by blast
qed

text \<open>
  C3 as stated fails: an input with \<open>../\<close> in it, an absolute URL on another host and
  a filename with a tab in it each give a path.
\<close>

theorem toApiLogoPath_rejects_counterexample:
  "stringIncludes ''/uploads/../uploads/logo.png'' ''../''
   \<and> toApiLogoPath lettersAndDotsHost (Some ''/uploads/../uploads/logo.png'')
       = Some ''/api/upload/logo/logo.png''
   \<and> toApiLogoPath lettersAndDotsHost (Some ''https://evil.com/uploads/logo.png'')
       = Some ''/api/upload/logo/logo.png''
   \<and> \<not> isFilenameChar (CHR 0x09)
   \<and> toApiLogoPath lettersAndDotsHost (Some (''/uploads/lo'' @ [CHR 0x09] @ ''go.png''))
       = Some ''/api/upload/logo/logo.png''"
  by code_simp

text \<open>
  C4. \<open>toApiLogoPath\<close> is idempotent: applied to its own result, a path or null, it
  gives that result again.
\<close>

theorem toApiLogoPath_idempotent:
  "toApiLogoPath hostParser (toApiLogoPath hostParser x) = toApiLogoPath hostParser x"
proof (cases "toApiLogoPath hostParser x")
  case None
  then show ?thesis by (simp add: toApiLogoPath_def extractLogoFilenameFromUrl_def)
next
  case (Some p)
  then obtain u f where f: "matchesFILENAME_RE f"
    and u: "urlPathname hostParser u = Some (''/api/upload/logo/'' @ f)
            \<or> urlPathname hostParser u = Some (''/uploads/'' @ f)"
    and p: "p = ''/api/upload/logo/'' @ f"
    unfolding toApiLogoPath_Some extractLogoFilenameFromUrl_Some by blast
  from f have all: "list_all isFilenameChar f" by (simp add: matchesFILENAME_RE_def)
  from u have "f \<noteq> ''.'' \<and> f \<noteq> ''..''"
  proof
    assume "urlPathname hostParser u = Some (''/api/upload/logo/'' @ f)"
    then have "urlPathname hostParser u = Some (CHR ''/'' # ''api/upload/logo'' @ CHR ''/'' # f)"
      by simp
    then show ?thesis using all by (rule pathname_filename_not_dot)
  next
    assume "urlPathname hostParser u = Some (''/uploads/'' @ f)"
    then have "urlPathname hostParser u = Some (CHR ''/'' # ''uploads'' @ CHR ''/'' # f)"
      by simp
    then show ?thesis using all by (rule pathname_filename_not_dot)
  qed
  then have "urlPathname hostParser p = Some p"
    unfolding p using f by (intro urlPathname_canonical) simp_all
  moreover have "p \<noteq> []" unfolding p by simp
  ultimately have "extractLogoFilenameFromUrl hostParser (Some p) = Some f"
    unfolding extractLogoFilenameFromUrl_Some using f p by blast
  then have "toApiLogoPath hostParser (Some p) = Some p"
    unfolding toApiLogoPath_Some using p by blast
  with Some show ?thesis by simp
qed

section \<open>Properties of the export route\<close>

lemma allowed_subset_supported:
  "f \<in> set (allowedExportFormats (getPlanCapabilities p)) \<Longrightarrow> f \<in> set SUPPORTED_FORMATS"
  by (auto simp: getPlanCapabilities_def SUPPORTED_FORMATS_def Let_def split: if_splits)

lemma not_allowed_cases:
  assumes "f \<in> set SUPPORTED_FORMATS"
    and "f \<notin> set (allowedExportFormats (getPlanCapabilities p))"
  shows "p \<noteq> Some ''agency'' \<and> (f = ''html'' \<or> f = ''docx'')
         \<and> allowedExportFormats (getPlanCapabilities p) = [''pdf'']"
  using assms
  by (auto simp: getPlanCapabilities_def SUPPORTED_FORMATS_def Let_def split: if_splits)

text \<open>
  C6. An authenticated request of a user whose record exists, with a requested format
  (lowercased) among pdf, html and docx but not among the formats of the user's plan,
  is answered 403 with the message that the plan allows PDF export only, and no call
  to the report service is made. The plan is then not the agency plan, the format is
  html or docx, and the allowed formats are pdf alone.
\<close>

theorem export_format_forbidden:
  assumes "users db uid = Some user"
    and "toLowerCase (orElse formatParam ''pdf'') \<in> set SUPPORTED_FORMATS"
    and "toLowerCase (orElse formatParam ''pdf'')
           \<notin> set (allowedExportFormats (getPlanCapabilities (planId user)))"
  shows "GET_export jsonParse upstream db (Some uid) auditId formatParam lang origin
           = (Failed 403 ''Your plan allows PDF export only'', [])
         \<and> statusOf (fst (GET_export jsonParse upstream db (Some uid) auditId formatParam lang origin)) = 403
         \<and> allowedExportFormats (getPlanCapabilities (planId user)) = [''pdf'']
         \<and> planId user \<noteq> Some ''agency''
         \<and> (toLowerCase (orElse formatParam ''pdf'') = ''html''
              \<or> toLowerCase (orElse formatParam ''pdf'') = ''docx'')"
proof -
  have r: "GET_export jsonParse upstream db (Some uid) auditId formatParam lang origin
           = (Failed 403 ''Your plan allows PDF export only'', [])"
    using assms by (simp add: GET_export_def Let_def)
  show ?thesis
    using not_allowed_cases [OF assms(2,3)] by (simp add: r statusOf_def)
qed

theorem export_format_forbidden_witness:
  "GET_export parseEmptyObject (evictedUpstream 200) exampleDb (Some ''u1'') ''a1''
     (Some ''docx'') None ''https://app.example''
   = (Failed 403 ''Your plan allows PDF export only'', [])"
proof -
  have u: "users exampleDb ''u1''
      = Some \<lparr> planId = Some ''free'', gscConnected = True, gscConnectedAt = Some 1 \<rparr>"
    by (simp add: exampleDb_def)
  have l: "toLowerCase (orElse (Some ''docx'') ''pdf'') = ''docx''"
    by (simp add: toLowerCase_def orElse_def lowerCaseChar_def isAsciiUpper_def charCode_def)
  have s: "toLowerCase (orElse (Some ''docx'') ''pdf'') \<in> set SUPPORTED_FORMATS"
    unfolding l by (simp add: SUPPORTED_FORMATS_def)
  have n: "toLowerCase (orElse (Some ''docx'') ''pdf'')
      \<notin> set (allowedExportFormats (getPlanCapabilities
           (planId \<lparr> planId = Some ''free'', gscConnected = True, gscConnectedAt = Some 1 \<rparr>)))"
    unfolding l by (simp add: getPlanCapabilities_def)
  from export_format_forbidden [OF u s n] show ?thesis by blast
qed

lemma GET_export_audit_irrelevant:
  assumes "audits db auditId = None \<or> (\<exists>a. audits db auditId = Some a \<and> audit_userId a \<noteq> uid)"
  shows "GET_export jsonParse upstream db (Some uid) auditId formatParam lang origin
         = GET_export jsonParse upstream (db \<lparr> audits := Map.empty \<rparr>) (Some uid) auditId
             formatParam lang origin"
  using assms
  by (auto simp: GET_export_def Let_def split: option.splits)

lemma GET_export_no_audit:
  assumes "audits db auditId = None \<or> (\<exists>a. audits db auditId = Some a \<and> audit_userId a \<noteq> uid)"
  shows "snd (GET_export jsonParse upstream db (Some uid) auditId formatParam lang origin) = []"
  using assms
  by (auto simp: GET_export_def Let_def split: option.splits)

text \<open>
  C5 (amended). For an authenticated request whose user record exists and whose
  requested format is one the user's plan allows, an audit that is absent and an audit
  owned by another user are both answered 404 with the message Not found. For every
  authenticated request the answer in the two cases is the one the handler gives when
  the audit table is empty, so the two cases cannot be told apart, and no call to the
  report service is made.
\<close>

theorem export_foreign_audit_as_absent:
  assumes "audits db auditId = None \<or> (\<exists>a. audits db auditId = Some a \<and> audit_userId a \<noteq> uid)"
  shows "GET_export jsonParse upstream db (Some uid) auditId formatParam lang origin
           = GET_export jsonParse upstream (db \<lparr> audits := Map.empty \<rparr>) (Some uid) auditId
               formatParam lang origin
         \<and> snd (GET_export jsonParse upstream db (Some uid) auditId formatParam lang origin) = []
         \<and> (\<forall>user. users db uid = Some user
                \<and> toLowerCase (orElse formatParam ''pdf'')
                     \<in> set (allowedExportFormats (getPlanCapabilities (planId user)))
              \<longrightarrow> GET_export jsonParse upstream db (Some uid) auditId formatParam lang origin
                    = (Failed 404 ''Not found'', []))"
proof (intro conjI allI impI)
  show "GET_export jsonParse upstream db (Some uid) auditId formatParam lang origin
           = GET_export jsonParse upstream (db \<lparr> audits := Map.empty \<rparr>) (Some uid) auditId
               formatParam lang origin"
    using assms by (rule GET_export_audit_irrelevant)
next
  show "snd (GET_export jsonParse upstream db (Some uid) auditId formatParam lang origin) = []"
    using assms by (rule GET_export_no_audit)
next
  fix user
  assume u: "users db uid = Some user
      \<and> toLowerCase (orElse formatParam ''pdf'')
           \<in> set (allowedExportFormats (getPlanCapabilities (planId user)))"
  then have "toLowerCase (orElse formatParam ''pdf'') \<in> set SUPPORTED_FORMATS"
    using allowed_subset_supported by blast
  with u assms
  show "GET_export jsonParse upstream db (Some uid) auditId formatParam lang origin
        = (Failed 404 ''Not found'', [])"
    by (auto simp: GET_export_def Let_def)
qed

theorem export_foreign_audit_as_absent_witness:
  "GET_export parseEmptyObject (evictedUpstream 200) exampleDb (Some ''u1'') ''a2''
     (Some ''pdf'') None ''https://app.example''
   = (Failed 404 ''Not found'', [])
   \<and> GET_export parseEmptyObject (evictedUpstream 200) exampleDb (Some ''u1'') ''a2''
       (Some ''pdf'') None ''https://app.example''
     = GET_export parseEmptyObject (evictedUpstream 200) (exampleDb \<lparr> audits := Map.empty \<rparr>)
         (Some ''u1'') ''a2'' (Some ''pdf'') None ''https://app.example''"
proof -
  have a: "audits exampleDb ''a2'' = None
      \<or> (\<exists>a. audits exampleDb ''a2'' = Some a \<and> audit_userId a \<noteq> ''u1'')"
    by (simp add: exampleDb_def)
  have u: "users exampleDb ''u1''
      = Some \<lparr> planId = Some ''free'', gscConnected = True, gscConnectedAt = Some 1 \<rparr>"
    by (simp add: exampleDb_def)
  have l: "toLowerCase (orElse (Some ''pdf'') ''pdf'')
      \<in> set (allowedExportFormats (getPlanCapabilities
           (planId \<lparr> planId = Some ''free'', gscConnected = True, gscConnectedAt = Some 1 \<rparr>)))"
    by (simp add: toLowerCase_def orElse_def lowerCaseChar_def isAsciiUpper_def charCode_def
                  getPlanCapabilities_def)
  from export_foreign_audit_as_absent [OF a, of parseEmptyObject "evictedUpstream 200"
      "Some ''pdf''" None "''https://app.example''"] u l
  show ?thesis by blast
qed

text \<open>
  C5 as stated fails: a user on the free plan who asks for docx of an audit owned by
  another user is answered 403, not 404.
\<close>

theorem export_foreign_audit_counterexample:
  "audits exampleDb ''a2'' = Some \<lparr> audit_userId = ''u2'', fastApiId = ''f2'',
                                     resultJson = None, language = Some ''uk'' \<rparr>
   \<and> GET_export parseEmptyObject (evictedUpstream 200) exampleDb (Some ''u1'') ''a2''
       (Some ''docx'') None ''https://app.example''
     = (Failed 403 ''Your plan allows PDF export only'', [])
   \<and> GET_export parseEmptyObject (evictedUpstream 200) exampleDb (Some ''u1'') ''missing''
       (Some ''docx'') None ''https://app.example''
     = (Failed 403 ''Your plan allows PDF export only'', [])"
  by (simp add: GET_export_def exampleDb_def Let_def toLowerCase_def orElse_def
                lowerCaseChar_def isAsciiUpper_def charCode_def SUPPORTED_FORMATS_def
                getPlanCapabilities_def)

lemma lowerCaseChar_idem: "lowerCaseChar (lowerCaseChar c) = lowerCaseChar c"
proof -
  let ?capital = "\<lambda>c. isAsciiUpper c \<or> (192 \<le> charCode c \<and> charCode c \<le> 222 \<and> charCode c \<noteq> 215)"
  have low: "lowerCaseChar d = (if ?capital d then char_of (charCode d + 32) else d)" for d
    by (simp add: lowerCaseChar_def)
  show ?thesis
  proof (cases "?capital c")
    case True
    then have "charCode (char_of (charCode c + 32) :: char) = charCode c + 32"
      by (auto simp: charCode_def isAsciiUpper_def)
    with True have "\<not> ?capital (char_of (charCode c + 32))"
      by (auto simp: isAsciiUpper_def)
    with True show ?thesis
      by (simp only: low [of c] low [of "char_of (charCode c + 32)"] if_True if_False)
  next
    case False
    then show ?thesis by (simp only: low [of c] if_False)
  qed
qed

lemma toLowerCase_idem: "toLowerCase (toLowerCase s) = toLowerCase s"
  by (simp add: toLowerCase_def lowerCaseChar_idem)

lemma orElse_toLowerCase:
  "toLowerCase (orElse (Some (toLowerCase f)) d) = toLowerCase (orElse (Some f) d)"
  by (simp add: orElse_def toLowerCase_idem) (simp add: toLowerCase_def)

text \<open>
  C10. The format parameter is lowercased before it is validated and checked against
  the plan: a request whose format is a casing variant of pdf, html or docx gets the
  answer, and makes the calls, of the request with the lowercase format, and it is not
  rejected as an unsupported format.
\<close>

theorem export_format_case_insensitive:
  assumes "toLowerCase f \<in> set SUPPORTED_FORMATS"
  shows "GET_export jsonParse upstream db session auditId (Some f) lang origin
           = GET_export jsonParse upstream db session auditId (Some (toLowerCase f)) lang origin
         \<and> fst (GET_export jsonParse upstream db session auditId (Some f) lang origin)
             \<noteq> Failed 400 ''Unsupported export format''"
proof
  show "GET_export jsonParse upstream db session auditId (Some f) lang origin
        = GET_export jsonParse upstream db session auditId (Some (toLowerCase f)) lang origin"
    unfolding GET_export_def orElse_toLowerCase ..
next
  from assms have "f \<noteq> []" by (auto simp: toLowerCase_def SUPPORTED_FORMATS_def)
  then have "toLowerCase (orElse (Some f) ''pdf'') \<in> set SUPPORTED_FORMATS"
    using assms by (simp add: orElse_def)
  moreover have "errorResponse status msg \<noteq> (Failed 400 ''Unsupported export format'' :: artifact outcome)"
    if "msg \<noteq> ''Unsupported export format''" for status msg
    using that by (simp add: errorResponse_def)
  ultimately show "fst (GET_export jsonParse upstream db session auditId (Some f) lang origin)
             \<noteq> Failed 400 ''Unsupported export format''"
    by (auto simp: GET_export_def Let_def split: option.splits)
qed

theorem export_format_case_insensitive_witness:
  "toLowerCase ''PDF'' = ''pdf''
   \<and> GET_export parseEmptyObject (evictedUpstream 200) exampleDb (Some ''u1'') ''a1''
       (Some ''PDF'') None ''https://app.example''
     = GET_export parseEmptyObject (evictedUpstream 200) exampleDb (Some ''u1'') ''a1''
         (Some ''pdf'') None ''https://app.example''
   \<and> fst (GET_export parseEmptyObject (evictedUpstream 200) exampleDb (Some ''u1'') ''a1''
       (Some ''PDF'') None ''https://app.example'') \<noteq> Failed 400 ''Unsupported export format''"
proof -
  have l: "toLowerCase ''PDF'' = ''pdf''"
    by code_simp
  then have "toLowerCase ''PDF'' \<in> set SUPPORTED_FORMATS"
    by (simp add: SUPPORTED_FORMATS_def)
  from export_format_case_insensitive [OF this, of parseEmptyObject "evictedUpstream 200"
      exampleDb "Some ''u1''" "''a1''" None "''https://app.example''", unfolded l] l
  show ?thesis by blast
qed



section \<open>Properties of the brand settings route\<close>

text \<open>
  C7 (amended). For a caller on the agency plan whose request body holds the two
  fields: a company name that is present and is not a string of at most 100 characters
  fails the write with 400; otherwise a logo value other than absent, null and the
  empty string is passed to the logo resolver, and one the resolver rejects fails the
  write with 400; in both cases the database is left as it was. Otherwise the write
  succeeds: a logo the resolver accepted is stored as the path the resolver returned,
  and a logo that is absent, null or the empty string is written without the resolver
  (absent keeps the stored value, null stores null, the empty string stores the empty
  string).
\<close>

theorem brandSettings_put_validates:
  assumes "users db uid = Some user" and "planId user = Some ''agency''"
  shows "companyNameInvalid name
           = (name \<noteq> JUndefined \<and> name \<noteq> JNull \<and> (\<forall>s. name = JString s \<longrightarrow> length s > 100))
         \<and> (companyNameInvalid name
              \<longrightarrow> PUT_brandSettings hostParser db (Some uid) (PutBody name logo)
                    = (Failed 400 ''Company name must be a string under 100 characters'', db))
         \<and> (\<not> companyNameInvalid name \<and> logoSupplied logo
                \<and> toApiLogoPathOf hostParser logo = None
              \<longrightarrow> PUT_brandSettings hostParser db (Some uid) (PutBody name logo)
                    = (Failed 400 ''Invalid logo URL'', db))
         \<and> (\<forall>p. \<not> companyNameInvalid name \<and> logoSupplied logo
                  \<and> toApiLogoPathOf hostParser logo = Some p
              \<longrightarrow> (\<exists>row. PUT_brandSettings hostParser db (Some uid) (PutBody name logo)
                           = (Succeeded row, db \<lparr> brandSettings := (brandSettings db)(uid \<mapsto> row) \<rparr>)
                         \<and> logoUrl row = Some p))
         \<and> (\<not> companyNameInvalid name \<and> \<not> logoSupplied logo
              \<longrightarrow> (\<exists>row. PUT_brandSettings hostParser db (Some uid) (PutBody name logo)
                           = (Succeeded row, db \<lparr> brandSettings := (brandSettings db)(uid \<mapsto> row) \<rparr>)
                         \<and> logoUrl row
                             = (case logo of
                                  JUndefined \<Rightarrow> (case brandSettings db uid of
                                                   None \<Rightarrow> None
                                                 | Some old \<Rightarrow> logoUrl old)
                                | JNull \<Rightarrow> None
                                | JString s \<Rightarrow> Some []
                                | JOther t s \<Rightarrow> None)))
         \<and> logoSupplied logo = (logo \<noteq> JUndefined \<and> logo \<noteq> JNull \<and> logo \<noteq> JString [])"
proof (intro conjI allI impI)
  show "companyNameInvalid name
        = (name \<noteq> JUndefined \<and> name \<noteq> JNull \<and> (\<forall>s. name = JString s \<longrightarrow> length s > 100))"
    by (cases name) (simp_all add: companyNameInvalid_def)
next
  assume "companyNameInvalid name"
  with assms show "PUT_brandSettings hostParser db (Some uid) (PutBody name logo)
      = (Failed 400 ''Company name must be a string under 100 characters'', db)"
    by (simp add: PUT_brandSettings_def)
next
  assume "\<not> companyNameInvalid name \<and> logoSupplied logo \<and> toApiLogoPathOf hostParser logo = None"
  with assms show "PUT_brandSettings hostParser db (Some uid) (PutBody name logo)
      = (Failed 400 ''Invalid logo URL'', db)"
    by (simp add: PUT_brandSettings_def)
next
  fix p
  assume a: "\<not> companyNameInvalid name \<and> logoSupplied logo \<and> toApiLogoPathOf hostParser logo = Some p"
  let ?row = "upsertBrandSettings db uid name (JString p)"
  have "logoUrl ?row = Some p"
    by (simp add: upsertBrandSettings_def writeField_def split: option.splits)
  moreover from assms a have "PUT_brandSettings hostParser db (Some uid) (PutBody name logo)
      = (Succeeded ?row, db \<lparr> brandSettings := (brandSettings db)(uid \<mapsto> ?row) \<rparr>)"
    by (simp add: PUT_brandSettings_def Let_def)
  ultimately show "\<exists>row. PUT_brandSettings hostParser db (Some uid) (PutBody name logo)
      = (Succeeded row, db \<lparr> brandSettings := (brandSettings db)(uid \<mapsto> row) \<rparr>)
      \<and> logoUrl row = Some p"
    by blast
next
  assume a: "\<not> companyNameInvalid name \<and> \<not> logoSupplied logo"
  let ?row = "upsertBrandSettings db uid name logo"
  from a have "logoUrl ?row
      = (case logo of
           JUndefined \<Rightarrow> (case brandSettings db uid of None \<Rightarrow> None | Some old \<Rightarrow> logoUrl old)
         | JNull \<Rightarrow> None
         | JString s \<Rightarrow> Some []
         | JOther t s \<Rightarrow> None)"
    by (cases logo)
       (simp_all add: upsertBrandSettings_def writeField_def logoSupplied_def split: option.splits)
  moreover from assms a have "PUT_brandSettings hostParser db (Some uid) (PutBody name logo)
      = (Succeeded ?row, db \<lparr> brandSettings := (brandSettings db)(uid \<mapsto> ?row) \<rparr>)"
    by (simp add: PUT_brandSettings_def Let_def)
  ultimately show "\<exists>row. PUT_brandSettings hostParser db (Some uid) (PutBody name logo)
      = (Succeeded row, db \<lparr> brandSettings := (brandSettings db)(uid \<mapsto> row) \<rparr>)
      \<and> logoUrl row
          = (case logo of
               JUndefined \<Rightarrow> (case brandSettings db uid of None \<Rightarrow> None | Some old \<Rightarrow> logoUrl old)
             | JNull \<Rightarrow> None
             | JString s \<Rightarrow> Some []
             | JOther t s \<Rightarrow> None)"
    by blast
next
  show "logoSupplied logo = (logo \<noteq> JUndefined \<and> logo \<noteq> JNull \<and> logo \<noteq> JString [])"
    by (simp add: logoSupplied_def)
qed

theorem brandSettings_put_validates_witness:
  "PUT_brandSettings lettersAndDotsHost exampleDb (Some ''u2'')
     (PutBody (JString ''Acme'') (JString ''https://evil.com/logo.png''))
   = (Failed 400 ''Invalid logo URL'', exampleDb)
   \<and> (\<exists>row. PUT_brandSettings lettersAndDotsHost exampleDb (Some ''u2'')
               (PutBody (JString ''Acme'') (JString ''/uploads/logo.png''))
             = (Succeeded row, exampleDb \<lparr> brandSettings := (brandSettings exampleDb)(''u2'' \<mapsto> row) \<rparr>)
             \<and> logoUrl row = Some ''/api/upload/logo/logo.png'')"
proof -
  let ?user = "\<lparr> planId = Some ''agency'', gscConnected = True, gscConnectedAt = Some 2 \<rparr>"
  have u: "users exampleDb ''u2'' = Some ?user" by (simp add: exampleDb_def)
  have a: "planId ?user = Some ''agency''" by simp
  have n: "\<not> companyNameInvalid (JString ''Acme'')" by (simp add: companyNameInvalid_def)
  have bad: "toApiLogoPathOf lettersAndDotsHost (JString ''https://evil.com/logo.png'') = None"
    by code_simp
  have good: "toApiLogoPathOf lettersAndDotsHost (JString ''/uploads/logo.png'')
              = Some ''/api/upload/logo/logo.png''"
    by code_simp
  have s: "logoSupplied (JString ''https://evil.com/logo.png'')"
    "logoSupplied (JString ''/uploads/logo.png'')"
    by (simp_all add: logoSupplied_def)
  note t = brandSettings_put_validates [OF u a, of "JString ''Acme''" lettersAndDotsHost]
  from t [of "JString ''https://evil.com/logo.png''"] n s(1) bad
  have 1: "PUT_brandSettings lettersAndDotsHost exampleDb (Some ''u2'')
     (PutBody (JString ''Acme'') (JString ''https://evil.com/logo.png''))
     = (Failed 400 ''Invalid logo URL'', exampleDb)"
    by blast
  from t [of "JString ''/uploads/logo.png''"] n s(2) good
  have 2: "\<exists>row. PUT_brandSettings lettersAndDotsHost exampleDb (Some ''u2'')
               (PutBody (JString ''Acme'') (JString ''/uploads/logo.png''))
             = (Succeeded row, exampleDb \<lparr> brandSettings := (brandSettings exampleDb)(''u2'' \<mapsto> row) \<rparr>)
             \<and> logoUrl row = Some ''/api/upload/logo/logo.png''"
    by blast
  from 1 2 show ?thesis by (rule conjI)
qed


text \<open>
  C7 as stated fails: the empty string is a logo value the resolver rejects, yet a
  write that supplies it succeeds and stores it as it is.
\<close>

theorem brandSettings_put_counterexample:
  "toApiLogoPath lettersAndDotsHost (Some []) = None
   \<and> fst (PUT_brandSettings lettersAndDotsHost exampleDb (Some ''u2'')
            (PutBody (JString ''Acme'') (JString [])))
     = Succeeded \<lparr> companyName = Some ''Acme'', logoUrl = Some [],
                   primaryColor = None, accentColor = None \<rparr>
   \<and> brandSettings (snd (PUT_brandSettings lettersAndDotsHost exampleDb (Some ''u2'')
                           (PutBody (JString ''Acme'') (JString [])))) ''u2''
     = Some \<lparr> companyName = Some ''Acme'', logoUrl = Some [],
              primaryColor = None, accentColor = None \<rparr>"
  by (simp add: PUT_brandSettings_def exampleDb_def companyNameInvalid_def logoSupplied_def
                upsertBrandSettings_def writeField_def toApiLogoPath_def
                extractLogoFilenameFromUrl_def Let_def)

section \<open>Properties of the disconnect route\<close>

lemma applyWrite_UserClearGsc:
  "applyWrite db (UserClearGsc uid) = Some db' \<Longrightarrow>
     sites db' = sites db \<and> accounts db' = accounts db
     \<and> (\<exists>u. users db uid = Some u
              \<and> users db' = (users db)(uid \<mapsto> u \<lparr> gscConnected := False, gscConnectedAt := None \<rparr>))"
  by (auto simp: applyWrite_def split: option.splits)

lemma applyWrite_SiteDeleteMany:
  "applyWrite db (SiteDeleteMany uid) = Some db' \<Longrightarrow>
     users db' = users db \<and> accounts db' = accounts db
     \<and> sites db' = (\<lambda>k. case sites db k of
                            None \<Rightarrow> None
                          | Some s \<Rightarrow> if site_userId s = uid then None else Some s)"
  by (auto simp: applyWrite_def)

lemma applyWrite_AccountClearTokens:
  "applyWrite db (AccountClearTokens aid) = Some db' \<Longrightarrow>
     users db' = users db \<and> sites db' = sites db
     \<and> (\<exists>a. accounts db aid = Some a
              \<and> accounts db' = (accounts db)(aid \<mapsto> a \<lparr> access_token := None,
                    refresh_token := None, expires_at := None, scope := None \<rparr>))"
  by (auto simp: applyWrite_def split: option.splits)

lemma runWrite_Some: "runWrite faults db w = Some db' \<Longrightarrow> applyWrite db w = Some db'"
  by (simp add: runWrite_def split: if_splits)

lemma clear_tokens_step:
  assumes "(case account of
              None \<Rightarrow> Some db
            | Some (accountId, a) \<Rightarrow> runWrite faults db (AccountClearTokens accountId)) = Some db1"
  shows "users db1 = users db \<and> sites db1 = sites db"
  using assms
  by (auto split: option.splits prod.splits dest!: runWrite_Some applyWrite_AccountClearTokens)

lemma clearGscState_delete:
  assumes "clearGscState faults db1 uid True = Some db2"
  shows "(\<forall>k s. sites db2 k = Some s \<longrightarrow> site_userId s \<noteq> uid \<and> sites db1 k = Some s)
         \<and> (\<forall>k s. sites db1 k = Some s \<and> site_userId s \<noteq> uid \<longrightarrow> sites db2 k = Some s)
         \<and> map_option gscConnected (users db2 uid) = Some False"
proof -
  from assms obtain dbm where m: "applyWrite db1 (UserClearGsc uid) = Some dbm"
    and e: "applyWrite dbm (SiteDeleteMany uid) = Some db2"
    by (auto simp: clearGscState_def split: option.splits dest!: runWrite_Some)
  from applyWrite_UserClearGsc [OF m] have m': "sites dbm = sites db1"
    and u: "map_option gscConnected (users dbm uid) = Some False"
    by auto
  from applyWrite_SiteDeleteMany [OF e] have e': "users db2 = users dbm"
    and s: "sites db2 = (\<lambda>k. case sites dbm k of
                            None \<Rightarrow> None
                          | Some s \<Rightarrow> if site_userId s = uid then None else Some s)"
    by auto
  show ?thesis
    unfolding s e' m' using u by (auto split: option.splits if_splits)
qed

lemma clearGscState_keep:
  assumes "clearGscState faults db1 uid False = Some db2"
  shows "sites db2 = sites db1 \<and> accounts db2 = accounts db1
         \<and> (\<exists>u. users db1 uid = Some u
                \<and> users db2 = (users db1)(uid \<mapsto> u \<lparr> gscConnected := False, gscConnectedAt := None \<rparr>))"
  using assms applyWrite_UserClearGsc [of db1 uid db2]
  by (simp add: clearGscState_def runWrite_def split: if_splits)

lemma disconnect_phases:
  obtains (tokens) revoked where
      "DELETE_disconnect getGoogleAccount faults db (Some uid) deleteDataParam = (Threw, revoked, db)"
  | (state) revoked db1 where
      "DELETE_disconnect getGoogleAccount faults db (Some uid) deleteDataParam = (Threw, revoked, db1)"
      "users db1 = users db" "sites db1 = sites db"
  | (finished) revoked db1 db2 where
      "DELETE_disconnect getGoogleAccount faults db (Some uid) deleteDataParam
         = (Succeeded (), revoked, db2)"
      "clearGscState faults db1 uid (deleteDataParam \<noteq> Some ''false'') = Some db2"
      "users db1 = users db" "sites db1 = sites db"
      "case getGoogleAccount db uid of
         None \<Rightarrow> accounts db1 = accounts db
       | Some (accountId, a) \<Rightarrow>
           (\<exists>stored. accounts db accountId = Some stored
              \<and> accounts db1 = (accounts db)(accountId \<mapsto> stored \<lparr> access_token := None,
                    refresh_token := None, expires_at := None, scope := None \<rparr>))"
proof (cases "getGoogleAccount db uid")
  case None
  show ?thesis
  proof (cases "clearGscState faults db uid (deleteDataParam \<noteq> Some ''false'')")
    case n: None
    with None have "DELETE_disconnect getGoogleAccount faults db (Some uid) deleteDataParam
        = (Threw, None, db)"
      by (simp add: DELETE_disconnect_def)
    then show ?thesis by (rule tokens)
  next
    case (Some db2)
    with None have "DELETE_disconnect getGoogleAccount faults db (Some uid) deleteDataParam
        = (Succeeded (), None, db2)"
      by (simp add: DELETE_disconnect_def)
    then show ?thesis using Some None by (intro finished [of None db2 db]) simp_all
  qed
next
  case (Some acc)
  then obtain aid a where acc: "getGoogleAccount db uid = Some (aid, a)" by (cases acc) simp
  show ?thesis
  proof (cases "runWrite faults db (AccountClearTokens aid)")
    case None
    with acc have "DELETE_disconnect getGoogleAccount faults db (Some uid) deleteDataParam
        = (Threw, keepTruthy (access_token a), db)"
      by (simp add: DELETE_disconnect_def)
    then show ?thesis by (rule tokens)
  next
    case c: (Some db1)
    note w = applyWrite_AccountClearTokens [OF runWrite_Some [OF c]]
    show ?thesis
    proof (cases "clearGscState faults db1 uid (deleteDataParam \<noteq> Some ''false'')")
      case None
      with acc c have "DELETE_disconnect getGoogleAccount faults db (Some uid) deleteDataParam
          = (Threw, keepTruthy (access_token a), db1)"
        by (simp add: DELETE_disconnect_def)
      then show ?thesis using w by (intro state [of _ db1]) simp_all
    next
      case (Some db2)
      with acc c have "DELETE_disconnect getGoogleAccount faults db (Some uid) deleteDataParam
          = (Succeeded (), keepTruthy (access_token a), db2)"
        by (simp add: DELETE_disconnect_def)
      then show ?thesis using Some w acc by (intro finished [of _ db2 db1]) simp_all
    qed
  qed
qed

text \<open>
  C8. For an authenticated disconnect request whose \<open>deleteData\<close> parameter is not the
  string false: either the request succeeds, and then the sites left are exactly the
  sites of the other users and the user's connection flag is false; or the handler
  throws, and then the sites and the user records are exactly those from before the
  request (neither the purge nor the flag was applied). With \<open>deleteData = false\<close>
  the sites are never changed, and on success the user's record differs only by the
  cleared connection flag and timestamp, and the accounts differ only by the cleared
  token fields of the user's Google account.
\<close>

theorem disconnect_atomic:
  "(deleteDataParam \<noteq> Some ''false'' \<longrightarrow>
      (case DELETE_disconnect getGoogleAccount faults db (Some uid) deleteDataParam of
         (Succeeded u, revoked, db') \<Rightarrow>
           (\<forall>k s. sites db' k = Some s \<longrightarrow> site_userId s \<noteq> uid \<and> sites db k = Some s)
           \<and> (\<forall>k s. sites db k = Some s \<and> site_userId s \<noteq> uid \<longrightarrow> sites db' k = Some s)
           \<and> map_option gscConnected (users db' uid) = Some False
       | (Failed status msg, revoked, db') \<Rightarrow> False
       | (Threw, revoked, db') \<Rightarrow> sites db' = sites db \<and> users db' = users db))
   \<and> (deleteDataParam = Some ''false'' \<longrightarrow>
        (case DELETE_disconnect getGoogleAccount faults db (Some uid) deleteDataParam of
           (Succeeded u, revoked, db') \<Rightarrow>
             sites db' = sites db
             \<and> (\<exists>user. users db uid = Some user
                   \<and> users db' = (users db)(uid \<mapsto> user \<lparr> gscConnected := False,
                                                            gscConnectedAt := None \<rparr>))
             \<and> (case getGoogleAccount db uid of
                   None \<Rightarrow> accounts db' = accounts db
                 | Some (accountId, a) \<Rightarrow>
                     (\<exists>stored. accounts db accountId = Some stored
                        \<and> accounts db' = (accounts db)(accountId \<mapsto> stored \<lparr> access_token := None,
                              refresh_token := None, expires_at := None, scope := None \<rparr>)))
         | (Failed status msg, revoked, db') \<Rightarrow> False
         | (Threw, revoked, db') \<Rightarrow> sites db' = sites db \<and> users db' = users db))"
proof (cases rule: disconnect_phases [of getGoogleAccount faults db uid deleteDataParam])
  case (tokens revoked)
  show ?thesis unfolding tokens by simp
next
  case (state revoked db1)
  show ?thesis unfolding state(1) using state(2,3) by simp
next
  case (finished revoked db1 db2)
  show ?thesis
  proof (intro conjI impI)
    assume "deleteDataParam \<noteq> Some ''false''"
    with finished(2) have "clearGscState faults db1 uid True = Some db2" by simp
    note r = clearGscState_delete [OF this, unfolded finished(4)]
    show "case DELETE_disconnect getGoogleAccount faults db (Some uid) deleteDataParam of
         (Succeeded u, revoked, db') \<Rightarrow>
           (\<forall>k s. sites db' k = Some s \<longrightarrow> site_userId s \<noteq> uid \<and> sites db k = Some s)
           \<and> (\<forall>k s. sites db k = Some s \<and> site_userId s \<noteq> uid \<longrightarrow> sites db' k = Some s)
           \<and> map_option gscConnected (users db' uid) = Some False
       | (Failed status msg, revoked, db') \<Rightarrow> False
       | (Threw, revoked, db') \<Rightarrow> sites db' = sites db \<and> users db' = users db"
      unfolding finished(1) by (simp only: prod.case outcome.case) (rule r)
  next
    assume "deleteDataParam = Some ''false''"
    with finished(2) have "clearGscState faults db1 uid False = Some db2" by simp
    note r = clearGscState_keep [OF this, unfolded finished(3,4)]
    have a: "case getGoogleAccount db uid of
                   None \<Rightarrow> accounts db2 = accounts db
                 | Some (accountId, a) \<Rightarrow>
                     (\<exists>stored. accounts db accountId = Some stored
                        \<and> accounts db2 = (accounts db)(accountId \<mapsto> stored \<lparr> access_token := None,
                              refresh_token := None, expires_at := None, scope := None \<rparr>))"
      using finished(5) r by (auto split: option.splits prod.splits)
    show "case DELETE_disconnect getGoogleAccount faults db (Some uid) deleteDataParam of
           (Succeeded u, revoked, db') \<Rightarrow>
             sites db' = sites db
             \<and> (\<exists>user. users db uid = Some user
                   \<and> users db' = (users db)(uid \<mapsto> user \<lparr> gscConnected := False,
                                                            gscConnectedAt := None \<rparr>))
             \<and> (case getGoogleAccount db uid of
                   None \<Rightarrow> accounts db' = accounts db
                 | Some (accountId, a) \<Rightarrow>
                     (\<exists>stored. accounts db accountId = Some stored
                        \<and> accounts db' = (accounts db)(accountId \<mapsto> stored \<lparr> access_token := None,
                              refresh_token := None, expires_at := None, scope := None \<rparr>)))
         | (Failed status msg, revoked, db') \<Rightarrow> False
         | (Threw, revoked, db') \<Rightarrow> sites db' = sites db \<and> users db' = users db"
      unfolding finished(1) using r a by (simp only: prod.case outcome.case)
  qed
qed

theorem disconnect_atomic_witness:
  "(case DELETE_disconnect googleAccountOfExample noFaults exampleDb (Some ''u1'') None of
      (Succeeded u, revoked, db') \<Rightarrow>
        sites db' ''s1'' = None \<and> sites db' ''s2'' = sites exampleDb ''s2''
        \<and> map_option gscConnected (users db' ''u1'') = Some False
    | (Failed status msg, revoked, db') \<Rightarrow> False
    | (Threw, revoked, db') \<Rightarrow> False)
   \<and> (case DELETE_disconnect googleAccountOfExample siteDeletionFails exampleDb (Some ''u1'') None of
        (Succeeded u, revoked, db') \<Rightarrow> False
      | (Failed status msg, revoked, db') \<Rightarrow> False
      | (Threw, revoked, db') \<Rightarrow> sites db' = sites exampleDb \<and> users db' = users exampleDb)
   \<and> (case DELETE_disconnect googleAccountOfExample noFaults exampleDb (Some ''u1'')
              (Some ''false'') of
        (Succeeded u, revoked, db') \<Rightarrow>
          sites db' = sites exampleDb
          \<and> map_option gscConnected (users db' ''u1'') = Some False
      | (Failed status msg, revoked, db') \<Rightarrow> False
      | (Threw, revoked, db') \<Rightarrow> False)"
proof -
  have s1: "sites exampleDb ''s1''
      = Some \<lparr> site_userId = ''u1'', autoIndexGoogle = False, autoIndexBing = True \<rparr>"
    and s2: "sites exampleDb ''s2''
      = Some \<lparr> site_userId = ''u2'', autoIndexGoogle = True, autoIndexBing = True \<rparr>"
    by (simp_all add: exampleDb_def)
  have ok: "fst (DELETE_disconnect googleAccountOfExample noFaults exampleDb (Some ''u1'') None)
            = Succeeded ()"
    by code_simp
  have thrown: "fst (DELETE_disconnect googleAccountOfExample siteDeletionFails exampleDb
                  (Some ''u1'') None) = Threw"
    by code_simp
  have keeps: "fst (DELETE_disconnect googleAccountOfExample noFaults exampleDb (Some ''u1'')
                (Some ''false'')) = Succeeded ()"
    by code_simp
  have n: "None \<noteq> Some ''false''" by simp
  have 1: "case DELETE_disconnect googleAccountOfExample noFaults exampleDb (Some ''u1'') None of
      (Succeeded u, revoked, db') \<Rightarrow>
        sites db' ''s1'' = None \<and> sites db' ''s2'' = sites exampleDb ''s2''
        \<and> map_option gscConnected (users db' ''u1'') = Some False
    | (Failed status msg, revoked, db') \<Rightarrow> False
    | (Threw, revoked, db') \<Rightarrow> False"
  proof (cases "DELETE_disconnect googleAccountOfExample noFaults exampleDb (Some ''u1'') None")
    case (fields r revoked db')
    with ok have r: "r = Succeeded ()" by simp
    note p = disconnect_atomic [where deleteDataParam = None
        and getGoogleAccount = googleAccountOfExample
        and faults = noFaults and db = exampleDb and uid = "''u1''",
        THEN conjunct1, rule_format, OF n, unfolded fields r prod.case outcome.case]
    note gone = p [THEN conjunct1, rule_format]
    note kept = p [THEN conjunct2, THEN conjunct1, rule_format, OF conjI]
    note flag = p [THEN conjunct2, THEN conjunct2]
    have t2: "sites db' ''s2'' = sites exampleDb ''s2''"
      unfolding s2 by (rule kept [OF s2]) simp
    have t1: "sites db' ''s1'' = None"
    proof (cases "sites db' ''s1''")
      case None
      then show ?thesis .
    next
      case (Some s)
      from gone [OF Some] have "site_userId s \<noteq> ''u1''" and "sites exampleDb ''s1'' = Some s"
        by (rule conjunct1, rule conjunct2)
      then have False unfolding s1 by auto
      then show ?thesis ..
    qed
    from t1 t2 flag show ?thesis
      unfolding fields r by (simp only: prod.case outcome.case simp_thms)
  qed
  have 2: "case DELETE_disconnect googleAccountOfExample siteDeletionFails exampleDb (Some ''u1'') None of
        (Succeeded u, revoked, db') \<Rightarrow> False
      | (Failed status msg, revoked, db') \<Rightarrow> False
      | (Threw, revoked, db') \<Rightarrow> sites db' = sites exampleDb \<and> users db' = users exampleDb"
  proof (cases "DELETE_disconnect googleAccountOfExample siteDeletionFails exampleDb (Some ''u1'') None")
    case (fields r revoked db')
    with thrown have r: "r = Threw" by simp
    from disconnect_atomic [where deleteDataParam = None and getGoogleAccount = googleAccountOfExample
        and faults = siteDeletionFails and db = exampleDb and uid = "''u1''",
        THEN conjunct1, rule_format, OF n]
    show ?thesis
      unfolding fields r by (simp only: prod.case outcome.case)
  qed
  have 3: "case DELETE_disconnect googleAccountOfExample noFaults exampleDb (Some ''u1'')
              (Some ''false'') of
        (Succeeded u, revoked, db') \<Rightarrow>
          sites db' = sites exampleDb
          \<and> map_option gscConnected (users db' ''u1'') = Some False
      | (Failed status msg, revoked, db') \<Rightarrow> False
      | (Threw, revoked, db') \<Rightarrow> False"
  proof (cases "DELETE_disconnect googleAccountOfExample noFaults exampleDb (Some ''u1'')
              (Some ''false'')")
    case (fields r revoked db')
    with keeps have r: "r = Succeeded ()" by simp
    note q = disconnect_atomic [where deleteDataParam = "Some ''false''"
        and getGoogleAccount = googleAccountOfExample
        and faults = noFaults and db = exampleDb and uid = "''u1''",
        THEN conjunct2, rule_format, OF refl, unfolded fields r prod.case outcome.case]
    from q [THEN conjunct1] q [THEN conjunct2, THEN conjunct1]
    have "sites db' = sites exampleDb \<and> map_option gscConnected (users db' ''u1'') = Some False"
      by auto
    then show ?thesis
      unfolding fields r by (simp only: prod.case outcome.case)
  qed
  from 1 2 3 show ?thesis by (intro conjI)
qed

section \<open>Properties of the auto-index route\<close>

text \<open>
  C9. For an authenticated PATCH on a site the caller owns, with a body that sets at
  least one flag: if a flag is set to true and the plan of the user does not grant
  auto-indexing (or the user or the plan is missing), the answer is 403 and the
  database is left as it was; if no flag is set to true, the request succeeds whatever
  the users and plans tables hold, the flags that were sent are stored and the answer
  carries the flags of the updated site.
\<close>

theorem autoIndex_gate:
  assumes "sites db siteId = Some site" and "site_userId site = uid"
    and "google \<noteq> None \<or> bing \<noteq> None"
  shows "((google = Some True \<or> bing = Some True) \<and> \<not> planAutoIndexing db uid
            \<longrightarrow> PATCH_autoIndex db (Some uid) siteId (PatchBody google bing)
                  = (Failed 403 ''Auto-indexing is not available on your plan'', db))
         \<and> (google \<noteq> Some True \<and> bing \<noteq> Some True
              \<longrightarrow> (\<forall>us ps.
                     PATCH_autoIndex (db \<lparr> users := us, plans := ps \<rparr>) (Some uid) siteId
                       (PatchBody google bing)
                     = (Succeeded (autoIndexGoogle (updateSite site google bing),
                                   autoIndexBing (updateSite site google bing)),
                        db \<lparr> users := us, plans := ps,
                             sites := (sites db)(siteId \<mapsto> updateSite site google bing) \<rparr>))
                  \<and> (\<forall>g. google = Some g \<longrightarrow> autoIndexGoogle (updateSite site google bing) = False)
                  \<and> (\<forall>b. bing = Some b \<longrightarrow> autoIndexBing (updateSite site google bing) = False)
                  \<and> (google = None \<longrightarrow> autoIndexGoogle (updateSite site google bing)
                                         = autoIndexGoogle site)
                  \<and> (bing = None \<longrightarrow> autoIndexBing (updateSite site google bing)
                                       = autoIndexBing site))"
proof (intro conjI impI allI)
  assume "(google = Some True \<or> bing = Some True) \<and> \<not> planAutoIndexing db uid"
  with assms show "PATCH_autoIndex db (Some uid) siteId (PatchBody google bing)
      = (Failed 403 ''Auto-indexing is not available on your plan'', db)"
    by (auto simp: PATCH_autoIndex_def)
next
  fix us ps
  assume "google \<noteq> Some True \<and> bing \<noteq> Some True"
  with assms show "PATCH_autoIndex (db \<lparr> users := us, plans := ps \<rparr>) (Some uid) siteId
        (PatchBody google bing)
      = (Succeeded (autoIndexGoogle (updateSite site google bing),
                    autoIndexBing (updateSite site google bing)),
         db \<lparr> users := us, plans := ps,
              sites := (sites db)(siteId \<mapsto> updateSite site google bing) \<rparr>)"
    by (auto simp: PATCH_autoIndex_def Let_def)
next
  fix g
  assume "google \<noteq> Some True \<and> bing \<noteq> Some True" and "google = Some g"
  then show "autoIndexGoogle (updateSite site google bing) = False"
    by (auto simp: updateSite_def)
next
  fix b
  assume "google \<noteq> Some True \<and> bing \<noteq> Some True" and "bing = Some b"
  then show "autoIndexBing (updateSite site google bing) = False"
    by (auto simp: updateSite_def)
next
  assume "google = None"
  then show "autoIndexGoogle (updateSite site google bing) = autoIndexGoogle site"
    by (simp add: updateSite_def)
next
  assume "bing = None"
  then show "autoIndexBing (updateSite site google bing) = autoIndexBing site"
    by (simp add: updateSite_def)
qed

theorem autoIndex_gate_witness:
  "planAutoIndexing exampleDb ''u1'' = False
   \<and> PATCH_autoIndex exampleDb (Some ''u1'') ''s1'' (PatchBody (Some True) None)
     = (Failed 403 ''Auto-indexing is not available on your plan'', exampleDb)
   \<and> fst (PATCH_autoIndex exampleDb (Some ''u1'') ''s1'' (PatchBody None (Some False)))
     = Succeeded (False, False)"
proof -
  let ?site = "\<lparr> site_userId = ''u1'', autoIndexGoogle = False, autoIndexBing = True \<rparr>"
  have s: "sites exampleDb ''s1'' = Some ?site" by (simp add: exampleDb_def)
  have o: "site_userId ?site = ''u1''" by simp
  have p: "planAutoIndexing exampleDb ''u1'' = False"
    by (simp add: planAutoIndexing_def exampleDb_def)
  have id: "exampleDb \<lparr> users := users exampleDb, plans := plans exampleDb \<rparr> = exampleDb"
    by simp
  have on: "Some True \<noteq> None \<or> (None :: bool option) \<noteq> None" by simp
  have off: "(None :: bool option) \<noteq> None \<or> Some False \<noteq> None" by simp
  from autoIndex_gate [OF s o on, THEN conjunct1] p
  have 1: "PATCH_autoIndex exampleDb (Some ''u1'') ''s1'' (PatchBody (Some True) None)
     = (Failed 403 ''Auto-indexing is not available on your plan'', exampleDb)"
    by simp
  have "(None :: bool option) \<noteq> Some True \<and> Some False \<noteq> Some True" by simp
  from autoIndex_gate [OF s o off, THEN conjunct2, rule_format, OF this, THEN conjunct1,
      rule_format, where us = "users exampleDb" and ps = "plans exampleDb", unfolded id]
  have 2: "fst (PATCH_autoIndex exampleDb (Some ''u1'') ''s1'' (PatchBody None (Some False)))
     = Succeeded (False, False)"
    by (simp add: updateSite_def)
  from p 1 2 show ?thesis by (intro conjI)
qed

end
